theory Spec2Isabelle
  imports Complex_Main
begin

section \<open>Python floats: IEEE 754 binary64, round to nearest, ties to even\<close>

text \<open>
  Both notebooks compute with Python floats (and numpy \<^verbatim>\<open>float64\<close> scalars), that is
  with IEEE 754 binary64 numbers. A value is a NaN, an infinity with its sign, or a finite
  number given by its sign bit (\<open>True\<close> for negative) and its magnitude, so that the two
  zeros are different values. Every arithmetic operation computes the exact real result
  and rounds it to the nearest representable number, ties to even.
\<close>

datatype double = NaN | Inf bool | Fin bool real

definition pow2 :: "int \<Rightarrow> real" where
  "pow2 e = (if 0 \<le> e then 2 ^ nat e else 1 / 2 ^ nat (- e))"

text \<open>
  The binade of a magnitude: the exponent \<open>e\<close> with \<open>2^e \<le> x < 2^(e+1)\<close>, searched
  upwards or downwards from 0 and kept within the exponent range of binary64
  (\<open>-1022\<close> for the subnormal numbers and zero, \<open>1023\<close> at the top).
\<close>

function expo_up :: "real \<Rightarrow> int \<Rightarrow> int" where
  "expo_up x e = (if e < 1023 \<and> pow2 (e + 1) \<le> x then expo_up x (e + 1) else e)"
  by pat_completeness auto
termination
  by (relation "measure (\<lambda>(x, e). nat (1023 - e))") auto

function expo_down :: "real \<Rightarrow> int \<Rightarrow> int" where
  "expo_down x e = (if - 1022 < e \<and> x < pow2 e then expo_down x (e - 1) else e)"
  by pat_completeness auto
termination
  by (relation "measure (\<lambda>(x, e). nat (e + 1022))") auto

declare expo_up.simps [simp del] expo_down.simps [simp del]

definition expo :: "real \<Rightarrow> int" where
  "expo x = (if 1 \<le> x then expo_up x 0 else expo_down x 0)"

definition round_half_even :: "real \<Rightarrow> int" where
  "round_half_even x =
     (let f = \<lfloor>x\<rfloor>; d = x - of_int f
      in if d < 1 / 2 then f else if 1 / 2 < d then f + 1
         else if even f then f else f + 1)"

text \<open>
  Rounding a magnitude: in its binade the representable numbers are the multiples of
  \<open>2^(e - 52)\<close> (53 significant bits), and the quotient is rounded to an integer.
\<close>

definition round_mag :: "real \<Rightarrow> real" where
  "round_mag x = (let q = pow2 (expo x - 52) in of_int (round_half_even (x / q)) * q)"

text \<open>A rounded magnitude of \<open>2^1024\<close> or more is an overflow: the result is an infinity.\<close>

definition fround :: "bool \<Rightarrow> real \<Rightarrow> double" where
  "fround s x = (let r = round_mag x in if 2 ^ 1024 \<le> r then Inf s else Fin s r)"

text \<open>
  A decimal literal of the source (\<^verbatim>\<open>2.74\<close>), and an integer operand converted to float
  (\<^verbatim>\<open>1000\<close>), denote the double nearest to the number written.
\<close>

definition lit :: "real \<Rightarrow> double" where
  "lit x = fround (x < 0) \<bar>x\<bar>"

definition sval :: "bool \<Rightarrow> real \<Rightarrow> real" where
  "sval s a = (if s then - a else a)"

fun fmul :: "double \<Rightarrow> double \<Rightarrow> double" where
  "fmul NaN y = NaN"
| "fmul x NaN = NaN"
| "fmul (Inf s) (Inf t) = Inf (s \<noteq> t)"
| "fmul (Inf s) (Fin t b) = (if b = 0 then NaN else Inf (s \<noteq> t))"
| "fmul (Fin s a) (Inf t) = (if a = 0 then NaN else Inf (s \<noteq> t))"
| "fmul (Fin s a) (Fin t b) = fround (s \<noteq> t) (a * b)"

fun fadd :: "double \<Rightarrow> double \<Rightarrow> double" where
  "fadd NaN y = NaN"
| "fadd x NaN = NaN"
| "fadd (Inf s) (Inf t) = (if s = t then Inf s else NaN)"
| "fadd (Inf s) (Fin t b) = Inf s"
| "fadd (Fin s a) (Inf t) = Inf t"
| "fadd (Fin s a) (Fin t b) =
     (let v = sval s a + sval t b
      in if v = 0 then Fin (s \<and> t) 0 else fround (v < 0) \<bar>v\<bar>)"

fun fdiv :: "double \<Rightarrow> double \<Rightarrow> double" where
  "fdiv NaN y = NaN"
| "fdiv x NaN = NaN"
| "fdiv (Inf s) (Inf t) = NaN"
| "fdiv (Inf s) (Fin t b) = Inf (s \<noteq> t)"
| "fdiv (Fin s a) (Inf t) = Fin (s \<noteq> t) 0"
| "fdiv (Fin s a) (Fin t b) =
     (if b = 0 then (if a = 0 then NaN else Inf (s \<noteq> t))
      else fround (s \<noteq> t) (a / b))"

text \<open>The comparison \<^verbatim>\<open><=\<close> of floats: false as soon as one side is a NaN.\<close>

fun fle :: "double \<Rightarrow> double \<Rightarrow> bool" where
  "fle NaN y = False"
| "fle x NaN = False"
| "fle (Inf s) (Inf t) = (s \<or> \<not> t)"
| "fle (Inf s) (Fin t b) = s"
| "fle (Fin s a) (Inf t) = (\<not> t)"
| "fle (Fin s a) (Fin t b) = (sval s a \<le> sval t b)"

fun is_zero :: "double \<Rightarrow> bool" where
  "is_zero (Fin s a) = (a = 0)"
| "is_zero x = False"

text \<open>
  The values of the type that are binary64 numbers: the magnitude of a finite one is
  not negative, below \<open>2^1024\<close>, and its own rounding.
\<close>

fun is_double :: "double \<Rightarrow> bool" where
  "is_double (Fin s a) = (0 \<le> a \<and> a < 2 ^ 1024 \<and> round_mag a = a)"
| "is_double x = True"

text \<open>
  The format itself: a magnitude is representable when it is an integer below \<open>2^53\<close>
  times a power of two from \<open>2^(-1074)\<close> to \<open>2^971\<close>.
\<close>

definition representable :: "real \<Rightarrow> bool" where
  "representable a \<longleftrightarrow>
     (\<exists>m k. a = of_int m * pow2 k \<and> 0 \<le> m \<and> m < 2 ^ 53 \<and> - 1074 \<le> k \<and> k \<le> 971)"

text \<open>
  The floats that are zero or more, by their representation: a magnitude with the sign
  bit clear (or the negative zero), or the positive infinity.
\<close>

fun nonneg :: "double \<Rightarrow> bool" where
  "nonneg (Fin s a) = (0 \<le> a \<and> (s \<longrightarrow> a = 0))"
| "nonneg (Inf s) = (\<not> s)"
| "nonneg NaN = False"

text \<open>\<open>approx x c tol\<close>: the float \<open>x\<close> is finite and within \<open>tol\<close> of the real number \<open>c\<close>.\<close>

fun approx :: "double \<Rightarrow> real \<Rightarrow> real \<Rightarrow> bool" where
  "approx (Fin s a) c tol = (\<bar>sval s a - c\<bar> \<le> tol)"
| "approx x c tol = False"

text \<open>The comparison \<^verbatim>\<open><\<close> of floats.\<close>

fun flt :: "double \<Rightarrow> double \<Rightarrow> bool" where
  "flt NaN y = False"
| "flt x NaN = False"
| "flt (Inf s) (Inf t) = (s \<and> \<not> t)"
| "flt (Inf s) (Fin t b) = s"
| "flt (Fin s a) (Inf t) = (\<not> t)"
| "flt (Fin s a) (Fin t b) = (sval s a < sval t b)"

section \<open>Errors of the Python code\<close>

datatype error = ValueError string | ZeroDivisionError | NameError string

text \<open>
  True division of Python floats raises on a zero divisor; the division of a numpy
  \<^verbatim>\<open>float64\<close> scalar does not (it is \<open>fdiv\<close>).
\<close>

definition py_truediv :: "double \<Rightarrow> double \<Rightarrow> error + double" where
  "py_truediv a b = (if is_zero b then Inl ZeroDivisionError else Inr (fdiv a b))"

text \<open>A computation that may raise, followed by another that uses its value.\<close>

definition bind_err :: "error + 'a \<Rightarrow> ('a \<Rightarrow> error + 'b) \<Rightarrow> error + 'b" where
  "bind_err r f = (case r of Inl e \<Rightarrow> Inl e | Inr v \<Rightarrow> f v)"

text \<open>The same for a computation that may have raised: it returned, and the value is close.\<close>

definition approx_res :: "error + double \<Rightarrow> real \<Rightarrow> real \<Rightarrow> bool" where
  "approx_res r c tol = (case r of Inl e \<Rightarrow> False | Inr x \<Rightarrow> approx x c tol)"

section \<open>The methane cost notebook\<close>

definition terraform_cost :: "double \<Rightarrow> double \<Rightarrow> double" where
  "terraform_cost usd_per_kg_co2 usd_per_kg_h2 =
     (let kg_co2_per_kg_ch4 = lit 2.74;
          kg_h2_per_kg_ch4 = lit 0.251;
          cost_scale_factor = lit 1.195;
          co2_cost = fmul usd_per_kg_co2 kg_co2_per_kg_ch4;
          h2_cost = fmul usd_per_kg_h2 kg_h2_per_kg_ch4;
          total_cost = fmul (fadd co2_cost h2_cost) cost_scale_factor
      in total_cost)"

text \<open>\<^verbatim>\<open>res1 = terraform_cost(78/1000, 0.89)\<close>: the quotient of two ints is a float.\<close>

definition res1 :: "error + double" where
  "res1 = (case py_truediv (lit 78) (lit 1000) of
             Inl e \<Rightarrow> Inl e
           | Inr co2 \<Rightarrow> Inr (terraform_cost co2 (lit 0.89)))"

subsection \<open>The global variables\<close>

text \<open>
  The float-valued global variables of a notebook, by name. They can be assigned again at
  any time, so a function that uses one reads it when it runs; reading a name that has no
  value raises NameError.
\<close>

type_synonym env = "string \<rightharpoonup> double"

definition lookup :: "env \<Rightarrow> string \<Rightarrow> error + double" where
  "lookup e name = (case e name of None \<Rightarrow> Inl (NameError name) | Some v \<Rightarrow> Inr v)"

text \<open>The first cell: \<^verbatim>\<open>CH4_KG_PER_KCF = 19.17\<close>.\<close>

definition cell_1 :: "env \<Rightarrow> env" where
  "cell_1 e = e(''CH4_KG_PER_KCF'' \<mapsto> lit 19.17)"

subsection \<open>The arrays of \<^verbatim>\<open>graph\<close>\<close>

text \<open>
  \<^verbatim>\<open>graph\<close> does not say what its two axes are. \<^verbatim>\<open>np.meshgrid\<close> makes arrays of them: an
  array of \<^verbatim>\<open>float64\<close> from \<^verbatim>\<open>np.linspace\<close> or from a list of floats, an array of \<^verbatim>\<open>int64\<close> from
  a list of ints. An array has its element type, and every element of it is of that type.
\<close>

datatype np_dtype = dt_int64 | dt_float64

datatype scalar = Int64 int | Float64 double

datatype array1 = IntArray "int list" | FloatArray "double list"

fun array_dtype :: "array1 \<Rightarrow> np_dtype" where
  "array_dtype (IntArray ns) = dt_int64"
| "array_dtype (FloatArray vs) = dt_float64"

fun items :: "array1 \<Rightarrow> scalar list" where
  "items (IntArray ns) = map Int64 ns"
| "items (FloatArray vs) = map Float64 vs"

definition len :: "array1 \<Rightarrow> nat" where
  "len a = length (items a)"

text \<open>In arithmetic with a float, an \<^verbatim>\<open>int64\<close> is converted to the nearest double.\<close>

fun as_float :: "scalar \<Rightarrow> double" where
  "as_float (Int64 n) = lit (of_int n)"
| "as_float (Float64 v) = v"

text \<open>
  Storing a float into an array of \<^verbatim>\<open>int64\<close> converts it as the C language does: the
  fraction is cut off, towards zero. Outside the range of \<^verbatim>\<open>int64\<close>, and for an infinity or
  a NaN, C leaves the result open; on x86-64 it is \<open>-2^63\<close>, which the model stores.
\<close>

fun cast_int64 :: "double \<Rightarrow> int" where
  "cast_int64 (Fin s a) =
     (if a < 2 ^ 63 then (if s then - \<lfloor>a\<rfloor> else \<lfloor>a\<rfloor>) else - (2 ^ 63))"
| "cast_int64 x = - (2 ^ 63)"

fun cast :: "np_dtype \<Rightarrow> double \<Rightarrow> scalar" where
  "cast dt_int64 v = Int64 (cast_int64 v)"
| "cast dt_float64 v = Float64 v"

fun zero :: "np_dtype \<Rightarrow> scalar" where
  "zero dt_int64 = Int64 0"
| "zero dt_float64 = Float64 (Fin False 0)"

text \<open>
  A two-dimensional array: its element type, its shape and its rows. \<^verbatim>\<open>X[i, j]\<close> is
  \<open>getitem X i j\<close> and \<^verbatim>\<open>Z[i, j] = v\<close> is \<open>setitem Z i j v\<close>, which converts \<open>v\<close> to the
  element type of \<^verbatim>\<open>Z\<close>; the loops of \<^verbatim>\<open>graph\<close> index within the shape only.
\<close>

record ndarray =
  dtype :: np_dtype
  shape :: "nat \<times> nat"
  rows :: "scalar list list"

definition getitem :: "ndarray \<Rightarrow> nat \<Rightarrow> nat \<Rightarrow> scalar" where
  "getitem X i j = rows X ! i ! j"

definition setitem :: "ndarray \<Rightarrow> nat \<Rightarrow> nat \<Rightarrow> double \<Rightarrow> ndarray" where
  "setitem Z i j v = Z\<lparr>rows := (rows Z)[i := (rows Z ! i)[j := cast (dtype Z) v]]\<rparr>"

text \<open>
  \<^verbatim>\<open>np.meshgrid(x, y)\<close>: both results have one row for each \<open>y\<close>, one column for each \<open>x\<close>;
  the first has the element type of \<open>x\<close>, the second that of \<open>y\<close>.
\<close>

definition meshgrid :: "array1 \<Rightarrow> array1 \<Rightarrow> ndarray \<times> ndarray" where
  "meshgrid x y =
     (\<lparr>dtype = array_dtype x, shape = (len y, len x),
       rows = map (\<lambda>v. items x) (items y)\<rparr>,
      \<lparr>dtype = array_dtype y, shape = (len y, len x),
       rows = map (\<lambda>v. map (\<lambda>u. v) (items x)) (items y)\<rparr>)"

text \<open>\<^verbatim>\<open>np.zeros_like(X)\<close>: zeros of the element type of \<^verbatim>\<open>X\<close>.\<close>

definition zeros_like :: "ndarray \<Rightarrow> ndarray" where
  "zeros_like X =
     \<lparr>dtype = dtype X, shape = shape X, rows = map (map (\<lambda>u. zero (dtype X))) (rows X)\<rparr>"

subsection \<open>The loops of \<^verbatim>\<open>graph\<close>\<close>

text \<open>
  The body of the inner loop computes the value to store in \<^verbatim>\<open>Z[i, j]\<close> from \<^verbatim>\<open>X[i, j]\<close> and
  \<^verbatim>\<open>Y[i, j]\<close>. The division and the two products of \<^verbatim>\<open>terraform_cost\<close> convert an \<^verbatim>\<open>int64\<close>
  operand to float; in "kcf" mode the body reads the global \<^verbatim>\<open>CH4_KG_PER_KCF\<close>.
\<close>

definition cell_cost :: "env \<Rightarrow> string \<Rightarrow> scalar \<Rightarrow> scalar \<Rightarrow> error + double" where
  "cell_cost globals units x y =
     (let co2_price_per_kg = fdiv (as_float x) (lit 1000);
          h2_price_per_kg = y;
          cost_per_kg = terraform_cost co2_price_per_kg (as_float h2_price_per_kg)
      in if units = ''kcf''
         then bind_err (lookup globals ''CH4_KG_PER_KCF'')
                (\<lambda>k. let cost_per_kcf = fmul cost_per_kg k in Inr cost_per_kcf)
         else Inr cost_per_kg)"

text \<open>A \<^verbatim>\<open>for\<close> loop over a range: the body runs for each index in turn, until one raises.\<close>

fun for_each :: "nat list \<Rightarrow> (nat \<Rightarrow> 's \<Rightarrow> error + 's) \<Rightarrow> 's \<Rightarrow> error + 's" where
  "for_each [] body s = Inr s"
| "for_each (i # is) body s =
     (case body i s of Inl e \<Rightarrow> Inl e | Inr s' \<Rightarrow> for_each is body s')"

definition loop_j :: "env \<Rightarrow> string \<Rightarrow> ndarray \<Rightarrow> ndarray \<Rightarrow> nat \<Rightarrow> ndarray \<Rightarrow> error + ndarray" where
  "loop_j globals units X Y i Z =
     for_each [0..<snd (shape X)]
       (\<lambda>j Z. bind_err (cell_cost globals units (getitem X i j) (getitem Y i j))
                 (\<lambda>v. Inr (setitem Z i j v)))
       Z"

definition loop_i :: "env \<Rightarrow> string \<Rightarrow> ndarray \<Rightarrow> ndarray \<Rightarrow> ndarray \<Rightarrow> error + ndarray" where
  "loop_i globals units X Y Z =
     for_each [0..<fst (shape X)] (\<lambda>i Z. loop_j globals units X Y i Z) Z"

text \<open>The matrix \<^verbatim>\<open>Z\<close> of \<^verbatim>\<open>graph\<close> when the two loops have run, or the error they raised.\<close>

definition graph_Z :: "array1 \<Rightarrow> array1 \<Rightarrow> string \<Rightarrow> env \<Rightarrow> error + ndarray" where
  "graph_Z x_axis_values y_axis_values units globals =
     (let (X, Y) = meshgrid x_axis_values y_axis_values;
          Z = zeros_like X
      in loop_i globals units X Y Z)"

text \<open>
  The value the body stores when it does not raise, with \<open>k\<close> for the global it reads: a
  name for the statements about the matrix.
\<close>

definition cell_value :: "double \<Rightarrow> string \<Rightarrow> scalar \<Rightarrow> scalar \<Rightarrow> double" where
  "cell_value k units x y =
     (let cost_per_kg = terraform_cost (fdiv (as_float x) (lit 1000)) (as_float y)
      in if units = ''kcf'' then fmul cost_per_kg k else cost_per_kg)"

subsection \<open>The figure, the files and the state of the notebook\<close>

text \<open>
  What \<^verbatim>\<open>graph\<close> leaves behind: the figure it drew, saved under a file name and shown.
  \<open>texts\<close> are the labels of the squares, each with its position and the number it prints
  (with two decimals); \<open>font\<close> is the font family the figure is drawn with. Drawing is
  taken to succeed: the errors of the plotting library are not part of the model, the
  errors of \<^verbatim>\<open>graph\<close> itself are.
\<close>

record figure =
  mesh :: "ndarray \<times> ndarray \<times> ndarray"
  font :: string
  xlabel :: string
  ylabel :: string
  title :: string
  xticks :: array1
  yticks :: array1
  texts :: "(scalar \<times> scalar \<times> scalar) list"

text \<open>
  The state \<^verbatim>\<open>graph\<close> runs in: the global variables, the configuration of pyplot (the
  second cell sets \<^verbatim>\<open>plt.rcParams['font.family']\<close>), the files saved and the figures shown
  so far. \<^verbatim>\<open>plt.subplots()\<close> opens a new figure, every later pyplot call of \<^verbatim>\<open>graph\<close> acts on
  it and \<^verbatim>\<open>plt.show()\<close> closes it, so that no open figure is carried from call to call.
\<close>

record world =
  globals :: env
  font_family :: string
  saved :: "(string \<times> figure) list"
  shown :: "figure list"

text \<open>The second cell: \<^verbatim>\<open>plt.rcParams['font.family'] = 'Helvetica Neue'\<close>.\<close>

definition cell_2 :: "world \<Rightarrow> world" where
  "cell_2 w = w\<lparr>font_family := ''Helvetica Neue''\<rparr>"

definition labels :: "ndarray \<Rightarrow> ndarray \<Rightarrow> ndarray \<Rightarrow> (scalar \<times> scalar \<times> scalar) list" where
  "labels X Y Z =
     concat (map (\<lambda>i. map (\<lambda>j. (getitem X i j, getitem Y i j, getitem Z i j))
                           [0..<snd (shape X)])
                 [0..<fst (shape X)])"

definition units_error :: error where
  "units_error = ValueError (''units must be 'kg' or 'kcf'' @ [CHR 0x27])"

text \<open>
  The second half of \<^verbatim>\<open>graph\<close>: the figure is drawn from the grid and from \<^verbatim>\<open>Z\<close>, saved
  under the name of the unit, and shown.
\<close>

definition draw :: "array1 \<Rightarrow> array1 \<Rightarrow> string \<Rightarrow> ndarray \<Rightarrow> world \<Rightarrow> world" where
  "draw x_axis_values y_axis_values units Z w =
     (let (X, Y) = meshgrid x_axis_values y_axis_values;
          fig = \<lparr>mesh = (X, Y, Z),
                 font = font_family w,
                 xlabel = ''$/kg CO2 (Direct Air Capture)'',
                 ylabel = ''$/kg H2 (Electrolysis)'',
                 title = ''Cost of Terraform Industries Green Methane'',
                 xticks = x_axis_values,
                 yticks = y_axis_values,
                 texts = labels X Y Z\<rparr>
      in w\<lparr>saved := saved w @ [(''terraform_cost_'' @ units @ ''.png'', fig)],
           shown := shown w @ [fig]\<rparr>)"

text \<open>
  \<^verbatim>\<open>graph\<close>: the check of the unit, the grid, the drawing. It returns nothing; an error
  leaves the state as it was.
\<close>

definition graph :: "array1 \<Rightarrow> array1 \<Rightarrow> string \<Rightarrow> world \<Rightarrow> (error + unit) \<times> world" where
  "graph x_axis_values y_axis_values units w =
     (if units \<notin> set [''kg'', ''kcf''] then (Inl units_error, w)
      else case graph_Z x_axis_values y_axis_values units (globals w) of
             Inl e \<Rightarrow> (Inl e, w)
           | Inr Z \<Rightarrow> (Inr (), draw x_axis_values y_axis_values units Z w))"

section \<open>The greenhouse notebook\<close>

text \<open>The constants of the cell; an \<^verbatim>\<open>int\<close> constant is converted where it meets a float.\<close>

definition BTU_PER_DEGREE_HOUR_PER_SQFT :: double where
  "BTU_PER_DEGREE_HOUR_PER_SQFT = lit 0.24"

definition KWH_PER_BTU :: double where
  "KWH_PER_BTU = lit 0.000293071"

definition TYPICAL_SQFT :: double where
  "TYPICAL_SQFT = lit 10000"

definition TYPICAL_HEIGHT_FT :: double where
  "TYPICAL_HEIGHT_FT = lit 16"

definition AIR_CHANGES_PER_HOUR :: double where
  "AIR_CHANGES_PER_HOUR = lit 1.5"

definition INFILTRATION_FACTOR :: double where
  "INFILTRATION_FACTOR = lit 1.2"

definition GREENHOUSE_EFFECT_FACTOR :: double where
  "GREENHOUSE_EFFECT_FACTOR = lit 1.3"

definition HEATING_SYSTEM_COP :: double where
  "HEATING_SYSTEM_COP = lit 0.85"

definition COOLING_SYSTEM_COP :: double where
  "COOLING_SYSTEM_COP = lit 2.5"

definition NATURAL_GAS_PER_KWH :: double where
  "NATURAL_GAS_PER_KWH = lit 0.04"

definition ELECTRICITY_PER_KWH :: double where
  "ELECTRICITY_PER_KWH = lit 0.12"

text \<open>
  The variables of the cell, and the four quotients it prints without naming them
  (energy for each square foot and for each square metre). The model keeps the numbers
  the cell prints, not their formatting.
\<close>

record greenhouse =
  baseEnergyPerDegreeHour :: double
  volumeEffect :: double
  adjustedEnergy :: double
  heatingBtuPerDegreeHour :: double
  coolingBtuPerDegreeHour :: double
  heatingKwhPerDegreeHour :: double
  coolingKwhPerDegreeHour :: double
  heatingKwhPerSqft :: double
  coolingKwhPerSqft :: double
  heatingKwhPerSqm :: double
  coolingKwhPerSqm :: double
  heatingCostPerDegreeHour :: double
  coolingCostPerDegreeHour :: double

definition greenhouse_chain :: "error + greenhouse" where
  "greenhouse_chain =
     (let base = fmul BTU_PER_DEGREE_HOUR_PER_SQFT TYPICAL_SQFT in
      bind_err (py_truediv (fmul TYPICAL_HEIGHT_FT AIR_CHANGES_PER_HOUR) (lit 8)) (\<lambda>vol.
      let adjusted = fmul (fmul base vol) INFILTRATION_FACTOR in
      bind_err (py_truediv adjusted HEATING_SYSTEM_COP) (\<lambda>h.
      bind_err (py_truediv h GREENHOUSE_EFFECT_FACTOR) (\<lambda>heatingBtu.
      bind_err (py_truediv (fmul adjusted GREENHOUSE_EFFECT_FACTOR) COOLING_SYSTEM_COP)
        (\<lambda>coolingBtu.
      let heatingKwh = fmul heatingBtu KWH_PER_BTU;
          coolingKwh = fmul coolingBtu KWH_PER_BTU in
      bind_err (py_truediv heatingKwh TYPICAL_SQFT) (\<lambda>hSqft.
      bind_err (py_truediv coolingKwh TYPICAL_SQFT) (\<lambda>cSqft.
      bind_err (py_truediv heatingKwh TYPICAL_SQFT) (\<lambda>hSqft'.
      bind_err (py_truediv coolingKwh TYPICAL_SQFT) (\<lambda>cSqft'.
      Inr \<lparr>baseEnergyPerDegreeHour = base,
           volumeEffect = vol,
           adjustedEnergy = adjusted,
           heatingBtuPerDegreeHour = heatingBtu,
           coolingBtuPerDegreeHour = coolingBtu,
           heatingKwhPerDegreeHour = heatingKwh,
           coolingKwhPerDegreeHour = coolingKwh,
           heatingKwhPerSqft = hSqft,
           coolingKwhPerSqft = cSqft,
           heatingKwhPerSqm = fmul hSqft' (lit 10.7639),
           coolingKwhPerSqm = fmul cSqft' (lit 10.7639),
           heatingCostPerDegreeHour = fmul heatingKwh NATURAL_GAS_PER_KWH,
           coolingCostPerDegreeHour = fmul coolingKwh ELECTRICITY_PER_KWH\<rparr>)))))))))"

text \<open>One variable of the cell when it has run, or the error it raised.\<close>

definition chain_value :: "(greenhouse \<Rightarrow> double) \<Rightarrow> error + double" where
  "chain_value var = (case greenhouse_chain of Inl e \<Rightarrow> Inl e | Inr g \<Rightarrow> Inr (var g))"

subsection \<open>The cell, statement by statement\<close>

text \<open>
  The cell runs at the top level of the notebook: every name it assigns is a global
  variable, and every name it uses is read from the global variables when the statement
  runs. An expression is a function of the variables; a statement takes the variables and
  the numbers printed so far, and may raise.
\<close>

type_synonym expr = "env \<Rightarrow> error + double"

definition e_const :: "double \<Rightarrow> expr" where
  "e_const v e = Inr v"

definition e_var :: "string \<Rightarrow> expr" where
  "e_var name e = lookup e name"

definition e_mul :: "expr \<Rightarrow> expr \<Rightarrow> expr" where
  "e_mul a b e = bind_err (a e) (\<lambda>x. bind_err (b e) (\<lambda>y. Inr (fmul x y)))"

definition e_div :: "expr \<Rightarrow> expr \<Rightarrow> expr" where
  "e_div a b e = bind_err (a e) (\<lambda>x. bind_err (b e) (\<lambda>y. py_truediv x y))"

type_synonym cell_state = "env \<times> double list"

definition assign :: "string \<Rightarrow> expr \<Rightarrow> cell_state \<Rightarrow> error + cell_state" where
  "assign name rhs st = bind_err (rhs (fst st)) (\<lambda>v. Inr ((fst st)(name \<mapsto> v), snd st))"

definition print_value :: "expr \<Rightarrow> cell_state \<Rightarrow> error + cell_state" where
  "print_value a st = bind_err (a (fst st)) (\<lambda>v. Inr (fst st, snd st @ [v]))"

fun run :: "(cell_state \<Rightarrow> error + cell_state) list \<Rightarrow> cell_state \<Rightarrow> error + cell_state" where
  "run [] st = Inr st"
| "run (stmt # stmts) st =
     (case stmt st of Inl e \<Rightarrow> Inl e | Inr st' \<Rightarrow> run stmts st')"

definition greenhouse_cell :: "cell_state \<Rightarrow> error + cell_state" where
  "greenhouse_cell =
     run
      [assign ''BTU_PER_DEGREE_HOUR_PER_SQFT'' (e_const BTU_PER_DEGREE_HOUR_PER_SQFT),
       assign ''KWH_PER_BTU'' (e_const KWH_PER_BTU),
       assign ''TYPICAL_SQFT'' (e_const TYPICAL_SQFT),
       assign ''TYPICAL_HEIGHT_FT'' (e_const TYPICAL_HEIGHT_FT),
       assign ''AIR_CHANGES_PER_HOUR'' (e_const AIR_CHANGES_PER_HOUR),
       assign ''INFILTRATION_FACTOR'' (e_const INFILTRATION_FACTOR),
       assign ''GREENHOUSE_EFFECT_FACTOR'' (e_const GREENHOUSE_EFFECT_FACTOR),
       assign ''HEATING_SYSTEM_COP'' (e_const HEATING_SYSTEM_COP),
       assign ''COOLING_SYSTEM_COP'' (e_const COOLING_SYSTEM_COP),
       assign ''baseEnergyPerDegreeHour''
         (e_mul (e_var ''BTU_PER_DEGREE_HOUR_PER_SQFT'') (e_var ''TYPICAL_SQFT'')),
       assign ''volumeEffect''
         (e_div (e_mul (e_var ''TYPICAL_HEIGHT_FT'') (e_var ''AIR_CHANGES_PER_HOUR''))
            (e_const (lit 8))),
       assign ''adjustedEnergy''
         (e_mul (e_mul (e_var ''baseEnergyPerDegreeHour'') (e_var ''volumeEffect''))
            (e_var ''INFILTRATION_FACTOR'')),
       assign ''heatingBtuPerDegreeHour''
         (e_div (e_div (e_var ''adjustedEnergy'') (e_var ''HEATING_SYSTEM_COP''))
            (e_var ''GREENHOUSE_EFFECT_FACTOR'')),
       assign ''coolingBtuPerDegreeHour''
         (e_div (e_mul (e_var ''adjustedEnergy'') (e_var ''GREENHOUSE_EFFECT_FACTOR''))
            (e_var ''COOLING_SYSTEM_COP'')),
       assign ''heatingKwhPerDegreeHour''
         (e_mul (e_var ''heatingBtuPerDegreeHour'') (e_var ''KWH_PER_BTU'')),
       assign ''coolingKwhPerDegreeHour''
         (e_mul (e_var ''coolingBtuPerDegreeHour'') (e_var ''KWH_PER_BTU'')),
       print_value (e_var ''heatingKwhPerDegreeHour''),
       print_value (e_var ''coolingKwhPerDegreeHour''),
       print_value (e_div (e_var ''heatingKwhPerDegreeHour'') (e_var ''TYPICAL_SQFT'')),
       print_value (e_div (e_var ''coolingKwhPerDegreeHour'') (e_var ''TYPICAL_SQFT'')),
       print_value
         (e_mul (e_div (e_var ''heatingKwhPerDegreeHour'') (e_var ''TYPICAL_SQFT''))
            (e_const (lit 10.7639))),
       print_value
         (e_mul (e_div (e_var ''coolingKwhPerDegreeHour'') (e_var ''TYPICAL_SQFT''))
            (e_const (lit 10.7639))),
       assign ''NATURAL_GAS_PER_KWH'' (e_const NATURAL_GAS_PER_KWH),
       assign ''ELECTRICITY_PER_KWH'' (e_const ELECTRICITY_PER_KWH),
       assign ''heatingCostPerDegreeHour''
         (e_mul (e_var ''heatingKwhPerDegreeHour'') (e_var ''NATURAL_GAS_PER_KWH'')),
       assign ''coolingCostPerDegreeHour''
         (e_mul (e_var ''coolingKwhPerDegreeHour'') (e_var ''ELECTRICITY_PER_KWH'')),
       print_value (e_var ''heatingCostPerDegreeHour''),
       print_value (e_var ''coolingCostPerDegreeHour'')]"

text \<open>Assignments in the order given.\<close>

definition assign_all :: "(string \<times> double) list \<Rightarrow> env \<Rightarrow> env" where
  "assign_all bs e = fold (\<lambda>(name, v) e. e(name \<mapsto> v)) bs e"

text \<open>
  What the cell leaves when the chain has the values \<open>g\<close>: the variables it assigned, and
  the eight numbers it printed.
\<close>

definition chain_bindings :: "greenhouse \<Rightarrow> (string \<times> double) list" where
  "chain_bindings g =
     [(''BTU_PER_DEGREE_HOUR_PER_SQFT'', BTU_PER_DEGREE_HOUR_PER_SQFT),
      (''KWH_PER_BTU'', KWH_PER_BTU),
      (''TYPICAL_SQFT'', TYPICAL_SQFT),
      (''TYPICAL_HEIGHT_FT'', TYPICAL_HEIGHT_FT),
      (''AIR_CHANGES_PER_HOUR'', AIR_CHANGES_PER_HOUR),
      (''INFILTRATION_FACTOR'', INFILTRATION_FACTOR),
      (''GREENHOUSE_EFFECT_FACTOR'', GREENHOUSE_EFFECT_FACTOR),
      (''HEATING_SYSTEM_COP'', HEATING_SYSTEM_COP),
      (''COOLING_SYSTEM_COP'', COOLING_SYSTEM_COP),
      (''baseEnergyPerDegreeHour'', baseEnergyPerDegreeHour g),
      (''volumeEffect'', volumeEffect g),
      (''adjustedEnergy'', adjustedEnergy g),
      (''heatingBtuPerDegreeHour'', heatingBtuPerDegreeHour g),
      (''coolingBtuPerDegreeHour'', coolingBtuPerDegreeHour g),
      (''heatingKwhPerDegreeHour'', heatingKwhPerDegreeHour g),
      (''coolingKwhPerDegreeHour'', coolingKwhPerDegreeHour g),
      (''NATURAL_GAS_PER_KWH'', NATURAL_GAS_PER_KWH),
      (''ELECTRICITY_PER_KWH'', ELECTRICITY_PER_KWH),
      (''heatingCostPerDegreeHour'', heatingCostPerDegreeHour g),
      (''coolingCostPerDegreeHour'', coolingCostPerDegreeHour g)]"

definition chain_printed :: "greenhouse \<Rightarrow> double list" where
  "chain_printed g =
     [heatingKwhPerDegreeHour g, coolingKwhPerDegreeHour g,
      heatingKwhPerSqft g, coolingKwhPerSqft g,
      heatingKwhPerSqm g, coolingKwhPerSqm g,
      heatingCostPerDegreeHour g, coolingCostPerDegreeHour g]"

section \<open>The grid loops\<close>

text \<open>
  The inner loop of \<^verbatim>\<open>graph\<close> overwrites row \<open>i\<close> of \<^verbatim>\<open>Z\<close> from left to right, the outer
  loop the rows from top to bottom. Unless the global is missing in "kcf" mode, they
  return the matrix of the values of the body, converted to the element type of the
  CO2 axis.
\<close>

lemma for_each_pure:
  assumes "\<And>i s. i \<in> set ns \<Longrightarrow> body i s = Inr (f i s)"
  shows "for_each ns body s = Inr (fold f ns s)"
  using assms by (induction ns arbitrary: s) simp_all

lemma for_each_raises:
  assumes "ns \<noteq> []" and "\<And>i s. i \<in> set ns \<Longrightarrow> body i s = Inl e"
  shows "for_each ns body s = Inl e"
  using assms by (cases ns) simp_all

lemma cell_cost_value:
  assumes "units = ''kcf'' \<longrightarrow> g ''CH4_KG_PER_KCF'' = Some k"
  shows "cell_cost g units x y = Inr (cell_value k units x y)"
  using assms by (auto simp: cell_cost_def cell_value_def lookup_def bind_err_def Let_def)

lemma cell_cost_raises:
  assumes "units = ''kcf''" and "g ''CH4_KG_PER_KCF'' = None"
  shows "cell_cost g units x y = Inl (NameError ''CH4_KG_PER_KCF'')"
  using assms by (simp add: cell_cost_def lookup_def bind_err_def)

lemma fold_setitem_row:
  assumes "i < length (rows Z)" and "n \<le> length (rows Z ! i)"
  shows "fold (\<lambda>j Z. setitem Z i j (c j)) [0..<n] Z =
         Z\<lparr>rows := (rows Z)[i := map (\<lambda>j. cast (dtype Z) (c j)) [0..<n] @ drop n (rows Z ! i)]\<rparr>"
  using assms
proof (induction n)
  case 0
  then show ?case by simp
next
  case (Suc n)
  let ?r = "rows Z ! i"
  let ?c = "\<lambda>j. cast (dtype Z) (c j)"
  have n: "n < length ?r" using Suc.prems by simp
  have upd: "(map ?c [0..<n] @ drop n ?r)[n := ?c n] = map ?c [0..<Suc n] @ drop (Suc n) ?r"
    using n by (simp add: list_update_append Cons_nth_drop_Suc [symmetric])
  show ?case
    using Suc n by (simp add: setitem_def upd)
qed

lemma loop_j_rows:
  assumes "units = ''kcf'' \<longrightarrow> g ''CH4_KG_PER_KCF'' = Some k"
    and "i < length (rows Z)" and "snd (shape X) = length (rows Z ! i)"
  shows "loop_j g units X Y i Z =
         Inr (Z\<lparr>rows := (rows Z)[i := map (\<lambda>j. cast (dtype Z)
                                (cell_value k units (getitem X i j) (getitem Y i j)))
                                  [0..<snd (shape X)]]\<rparr>)"
proof -
  let ?c = "\<lambda>j. cell_value k units (getitem X i j) (getitem Y i j)"
  have "loop_j g units X Y i Z =
        Inr (fold (\<lambda>j Z. setitem Z i j (?c j)) [0..<snd (shape X)] Z)"
    unfolding loop_j_def
    using assms(1) by (intro for_each_pure) (simp add: cell_cost_value [of units g k] bind_err_def)
  then show ?thesis
    using fold_setitem_row [of i Z "snd (shape X)" ?c] assms(2,3) by simp
qed

lemma fold_set_rows:
  assumes "m \<le> length (rows Z)"
  shows "fold (\<lambda>i Z. Z\<lparr>rows := (rows Z)[i := row i]\<rparr>) [0..<m] Z =
         Z\<lparr>rows := map row [0..<m] @ drop m (rows Z)\<rparr>"
  using assms
proof (induction m)
  case 0
  then show ?case by simp
next
  case (Suc m)
  have m: "m < length (rows Z)" using Suc.prems by simp
  have "(map row [0..<m] @ drop m (rows Z))[m := row m] =
        map row [0..<Suc m] @ drop (Suc m) (rows Z)"
    using m by (simp add: list_update_append Cons_nth_drop_Suc [symmetric])
  then show ?case
    using Suc m by simp
qed

lemma for_each_invariant:
  assumes "P s" and "\<And>i s. i \<in> set ns \<Longrightarrow> P s \<Longrightarrow> body i s = Inr (f i s) \<and> P (f i s)"
  shows "for_each ns body s = Inr (fold f ns s)"
  using assms by (induction ns arbitrary: s) simp_all

lemma loop_i_rows:
  assumes k: "units = ''kcf'' \<longrightarrow> g ''CH4_KG_PER_KCF'' = Some k"
    and len: "length (rows Z) = fst (shape X)"
    and cols: "\<forall>r \<in> set (rows Z). length r = snd (shape X)"
  shows "loop_i g units X Y Z =
         Inr (Z\<lparr>rows := map (\<lambda>i. map (\<lambda>j. cast (dtype Z)
                                   (cell_value k units (getitem X i j) (getitem Y i j)))
                                 [0..<snd (shape X)]) [0..<fst (shape X)]\<rparr>)"
proof -
  let ?row = "\<lambda>i. map (\<lambda>j. cast (dtype Z) (cell_value k units (getitem X i j) (getitem Y i j)))
                      [0..<snd (shape X)]"
  let ?P = "\<lambda>Z'. dtype Z' = dtype Z \<and> length (rows Z') = fst (shape X) \<and>
                  (\<forall>r \<in> set (rows Z'). length r = snd (shape X))"
  have step: "loop_j g units X Y i Z' = Inr (Z'\<lparr>rows := (rows Z')[i := ?row i]\<rparr>) \<and>
              ?P (Z'\<lparr>rows := (rows Z')[i := ?row i]\<rparr>)"
    if "i \<in> set [0..<fst (shape X)]" and "?P Z'" for i Z'
  proof
    have i: "i < length (rows Z')" using that by simp
    then have "snd (shape X) = length (rows Z' ! i)" using that by simp
    with i show "loop_j g units X Y i Z' = Inr (Z'\<lparr>rows := (rows Z')[i := ?row i]\<rparr>)"
      using loop_j_rows [of units g k i Z' X Y] k that by simp
    show "?P (Z'\<lparr>rows := (rows Z')[i := ?row i]\<rparr>)"
      using that set_update_subset_insert [of "rows Z'" i "?row i"] by auto
  qed
  have "loop_i g units X Y Z =
        Inr (fold (\<lambda>i Z'. Z'\<lparr>rows := (rows Z')[i := ?row i]\<rparr>) [0..<fst (shape X)] Z)"
    unfolding loop_i_def
    using len cols by (intro for_each_invariant [where P = ?P]) (simp_all add: step)
  then show ?thesis
    using fold_set_rows [of "fst (shape X)" Z ?row] len by simp
qed

lemma graph_Z_rows:
  assumes "units = ''kcf'' \<longrightarrow> g ''CH4_KG_PER_KCF'' = Some k"
  shows "graph_Z x y units g =
     Inr \<lparr>dtype = array_dtype x, shape = (len y, len x),
          rows = map (\<lambda>i. map (\<lambda>j. cast (array_dtype x)
                                 (cell_value k units (items x ! j) (items y ! i)))
                           [0..<len x])
                   [0..<len y]\<rparr>"
proof -
  obtain X Y where XY: "meshgrid x y = (X, Y)" by fastforce
  have X: "X = \<lparr>dtype = array_dtype x, shape = (len y, len x),
               rows = map (\<lambda>v. items x) (items y)\<rparr>"
    and Y: "Y = \<lparr>dtype = array_dtype y, shape = (len y, len x),
               rows = map (\<lambda>v. map (\<lambda>u. v) (items x)) (items y)\<rparr>"
    using XY by (simp_all add: meshgrid_def)
  let ?Z = "zeros_like X"
  have "loop_i g units X Y ?Z =
        Inr (?Z\<lparr>rows := map (\<lambda>i. map (\<lambda>j. cast (dtype ?Z)
                                   (cell_value k units (getitem X i j) (getitem Y i j)))
                                 [0..<snd (shape X)]) [0..<fst (shape X)]\<rparr>)"
    using assms by (intro loop_i_rows) (auto simp: zeros_like_def X len_def)
  also have "\<dots> = Inr \<lparr>dtype = array_dtype x, shape = (len y, len x),
          rows = map (\<lambda>i. map (\<lambda>j. cast (array_dtype x)
                                 (cell_value k units (items x ! j) (items y ! i)))
                           [0..<len x])
                   [0..<len y]\<rparr>"
    by (simp add: zeros_like_def X Y getitem_def len_def)
  finally show ?thesis
    by (simp add: graph_Z_def XY)
qed

text \<open>The loops read one global only, and only in "kcf" mode.\<close>

lemma graph_Z_globals:
  assumes "units = ''kcf'' \<longrightarrow> g ''CH4_KG_PER_KCF'' = g' ''CH4_KG_PER_KCF''"
  shows "graph_Z x y units g = graph_Z x y units g'"
proof -
  have "cell_cost g units = cell_cost g' units"
    using assms
    by (cases "units = ''kcf''") (simp_all add: cell_cost_def lookup_def fun_eq_iff Let_def)
  then show ?thesis
    by (simp add: graph_Z_def loop_i_def loop_j_def)
qed

lemma graph_Z_raises:
  assumes "units = ''kcf''" and "g ''CH4_KG_PER_KCF'' = None" and "0 < len x" and "0 < len y"
  shows "graph_Z x y units g = Inl (NameError ''CH4_KG_PER_KCF'')"
proof -
  have row: "loop_j g units X Y i Z = Inl (NameError ''CH4_KG_PER_KCF'')"
    if "0 < snd (shape X)" for X Y i Z
    unfolding loop_j_def
    using that assms(1,2)
    by (intro for_each_raises) (simp_all add: cell_cost_raises bind_err_def)
  show ?thesis
    unfolding graph_Z_def meshgrid_def loop_i_def
    using assms(3,4) by (simp add: for_each_raises row)
qed

subsection \<open>The cells of the matrix\<close>

text \<open>
  With a CO2 axis of floats the matrix holds the costs themselves, and a cell in "kcf"
  mode is the cell in "kg" mode times the global; with a CO2 axis of ints it holds the
  costs cut to integers. Cells with the same CO2 and H2 values are the same.
\<close>

lemma getitem_graph_Z:
  assumes "units = ''kcf'' \<longrightarrow> g ''CH4_KG_PER_KCF'' = Some k"
    and "graph_Z x y units g = Inr Z" and "i < len y" and "j < len x"
  shows "getitem Z i j = cast (array_dtype x) (cell_value k units (items x ! j) (items y ! i))"
  using assms graph_Z_rows [of units g k x y] by (auto simp: getitem_def)

lemma graph_Z_float_axis_kg:
  assumes "i < len y" and "j < length xs"
  shows "\<exists>Z. graph_Z (FloatArray xs) y ''kg'' g = Inr Z \<and> dtype Z = dt_float64 \<and>
           shape Z = (len y, length xs) \<and>
           getitem Z i j =
             Float64 (terraform_cost (fdiv (xs ! j) (lit 1000)) (as_float (items y ! i)))"
  using assms graph_Z_rows [of "''kg''" g "Fin False 0" "FloatArray xs" y]
  by (simp add: getitem_def len_def cell_value_def)

lemma graph_Z_float_axis_kcf:
  assumes "g ''CH4_KG_PER_KCF'' = Some k" and "i < len y" and "j < length xs"
  shows "\<exists>Z Z'. graph_Z (FloatArray xs) y ''kcf'' g = Inr Z \<and>
           graph_Z (FloatArray xs) y ''kg'' g = Inr Z' \<and>
           as_float (getitem Z i j) = fmul (as_float (getitem Z' i j)) k"
  using assms graph_Z_rows [of "''kg''" g k "FloatArray xs" y]
    graph_Z_rows [of "''kcf''" g k "FloatArray xs" y]
  by (simp add: getitem_def len_def cell_value_def)

lemma graph_Z_same_inputs:
  assumes "graph_Z x y units g = Inr Z"
    and "i < len y" and "i' < len y" and "j < len x" and "j' < len x"
    and "items x ! j = items x ! j'" and "items y ! i = items y ! i'"
  shows "getitem Z i j = getitem Z i' j'"
proof (cases "units = ''kcf'' \<and> g ''CH4_KG_PER_KCF'' = None")
  case True
  then have "graph_Z x y units g = Inl (NameError ''CH4_KG_PER_KCF'')"
    using assms(2,4) by (intro graph_Z_raises) auto
  then show ?thesis using assms(1) by simp
next
  case False
  then obtain k where "units = ''kcf'' \<longrightarrow> g ''CH4_KG_PER_KCF'' = Some k" by auto
  then show ?thesis
    using assms getitem_graph_Z [of units g k x y Z] by simp
qed

lemma graph_Z_int_axis:
  assumes "i < len y" and "j < length ns"
  shows "\<exists>Z. graph_Z (IntArray ns) y ''kg'' g = Inr Z \<and> dtype Z = dt_int64 \<and>
           shape Z = (len y, length ns) \<and>
           getitem Z i j =
             Int64 (cast_int64 (terraform_cost (fdiv (lit (of_int (ns ! j))) (lit 1000))
                                  (as_float (items y ! i))))"
  using assms graph_Z_rows [of "''kg''" g "Fin False 0" "IntArray ns" y]
  by (simp add: getitem_def len_def cell_value_def)

subsection \<open>What \<^verbatim>\<open>graph\<close> reads and what it keeps\<close>

text \<open>
  \<^verbatim>\<open>graph\<close> reads one global variable and the font of pyplot; it changes neither, and
  adds one file and one figure. With a known unit and the global set it returns.
\<close>

lemma graph_returns:
  assumes "units = ''kg'' \<or> units = ''kcf''"
    and "units = ''kcf'' \<longrightarrow> globals w ''CH4_KG_PER_KCF'' = Some k"
  shows "fst (graph x y units w) = Inr ()"
  using assms graph_Z_rows [of units "globals w" k x y]
  by (auto simp: graph_def)

lemma graph_reads:
  assumes "globals w1 ''CH4_KG_PER_KCF'' = globals w2 ''CH4_KG_PER_KCF''"
    and "font_family w1 = font_family w2"
  shows "fst (graph x y units w1) = fst (graph x y units w2) \<and>
         drop (length (saved w1)) (saved (snd (graph x y units w1))) =
           drop (length (saved w2)) (saved (snd (graph x y units w2))) \<and>
         drop (length (shown w1)) (shown (snd (graph x y units w1))) =
           drop (length (shown w2)) (shown (snd (graph x y units w2)))"
proof -
  have Z: "graph_Z x y units (globals w1) = graph_Z x y units (globals w2)"
    using assms(1) by (intro graph_Z_globals) simp
  show ?thesis
    using Z assms(2)
    by (auto simp: graph_def draw_def Let_def split: sum.splits prod.splits)
qed

lemma graph_keeps:
  "globals (snd (graph x y units w)) = globals w \<and>
   font_family (snd (graph x y units w)) = font_family w"
  by (auto simp: graph_def draw_def Let_def split: sum.splits prod.splits)

lemma graph_twice:
  "fst (graph x y units (snd (graph x y units w))) = fst (graph x y units w) \<and>
   drop (length (saved (snd (graph x y units w))))
     (saved (snd (graph x y units (snd (graph x y units w))))) =
   drop (length (saved w)) (saved (snd (graph x y units w))) \<and>
   drop (length (shown (snd (graph x y units w))))
     (shown (snd (graph x y units (snd (graph x y units w))))) =
   drop (length (shown w)) (shown (snd (graph x y units w)))"
  using graph_reads [of "snd (graph x y units w)" w x y units] graph_keeps [of x y units w]
  by simp

section \<open>Rounding is monotone\<close>

text \<open>
  The binade found by the search brackets the magnitude, so a rounded magnitude stays in
  the closed binade of its argument, and rounding preserves the order.
\<close>

lemma pow2_powi: "pow2 e = 2 powi e"
  by (simp add: pow2_def power_int_def power_one_over)

lemma pow2_pos: "0 < pow2 e"
  by (simp add: pow2_powi)

lemma pow2_add: "pow2 (a + b) = pow2 a * pow2 b"
  by (simp add: pow2_powi power_int_add)

lemma pow2_mono: "a \<le> b \<Longrightarrow> pow2 a \<le> pow2 b"
  by (simp add: pow2_powi power_int_increasing)

lemma pow2_0: "pow2 0 = 1"
  by (simp add: pow2_def)

lemma expo_up_spec:
  "e \<le> 1023 \<Longrightarrow>
   e \<le> expo_up x e \<and> expo_up x e \<le> 1023 \<and>
   (expo_up x e < 1023 \<longrightarrow> x < pow2 (expo_up x e + 1)) \<and>
   (pow2 e \<le> x \<longrightarrow> pow2 (expo_up x e) \<le> x)"
proof (induction x e rule: expo_up.induct)
  case (1 x e)
  show ?case
  proof (cases "e < 1023 \<and> pow2 (e + 1) \<le> x")
    case True
    then have "expo_up x e = expo_up x (e + 1)"
      by (subst expo_up.simps) simp
    with 1 True show ?thesis by auto
  next
    case False
    then have "expo_up x e = e"
      by (subst expo_up.simps) auto
    with 1 False show ?thesis by auto
  qed
qed

lemma expo_down_spec:
  "- 1022 \<le> e \<Longrightarrow>
   - 1022 \<le> expo_down x e \<and> expo_down x e \<le> e \<and>
   (- 1022 < expo_down x e \<longrightarrow> pow2 (expo_down x e) \<le> x) \<and>
   (x < pow2 (e + 1) \<longrightarrow> x < pow2 (expo_down x e + 1))"
proof (induction x e rule: expo_down.induct)
  case (1 x e)
  show ?case
  proof (cases "- 1022 < e \<and> x < pow2 e")
    case True
    then have "expo_down x e = expo_down x (e - 1)"
      by (subst expo_down.simps) simp
    with 1 True show ?thesis by auto
  next
    case False
    then have "expo_down x e = e"
      by (subst expo_down.simps) auto
    with 1 False show ?thesis by auto
  qed
qed

lemma expo_range: "- 1022 \<le> expo x" "expo x \<le> 1023"
  using expo_up_spec [of 0 x] expo_down_spec [of 0 x] by (auto simp: expo_def)

lemma expo_lower: "- 1022 < expo x \<Longrightarrow> pow2 (expo x) \<le> x"
  using expo_up_spec [of 0 x] expo_down_spec [of 0 x] by (auto simp: expo_def pow2_0)

lemma expo_upper: "expo x < 1023 \<Longrightarrow> x < pow2 (expo x + 1)"
  using expo_up_spec [of 0 x] expo_down_spec [of 0 x]
  by (auto simp: expo_def pow2_def)

lemma expo_mono:
  assumes "x \<le> y"
  shows "expo x \<le> expo y"
proof (rule ccontr)
  assume "\<not> expo x \<le> expo y"
  then have lt: "expo y < expo x" by simp
  have "expo y < 1023" using lt expo_range(2) [of x] by simp
  then have "y < pow2 (expo y + 1)" by (rule expo_upper)
  also have "pow2 (expo y + 1) \<le> pow2 (expo x)" using lt by (intro pow2_mono) simp
  also have "pow2 (expo x) \<le> x" using lt expo_range(1) [of y] by (intro expo_lower) simp
  finally show False using assms by simp
qed

lemma round_half_even_cases:
  "round_half_even x = \<lfloor>x\<rfloor> \<and> x - of_int \<lfloor>x\<rfloor> \<le> 1 / 2 \<or>
   round_half_even x = \<lfloor>x\<rfloor> + 1 \<and> 1 / 2 \<le> x - of_int \<lfloor>x\<rfloor>"
  by (auto simp: round_half_even_def Let_def)

lemma round_half_even_of_int: "round_half_even (of_int n) = n"
  by (simp add: round_half_even_def)

lemma round_half_even_ge:
  assumes "of_int n \<le> x"
  shows "n \<le> round_half_even x"
proof -
  have "n \<le> \<lfloor>x\<rfloor>" using assms by (simp add: le_floor_iff)
  then show ?thesis using round_half_even_cases [of x] by auto
qed

lemma round_half_even_le:
  assumes "x \<le> of_int n"
  shows "round_half_even x \<le> n"
proof (cases "x = of_int n")
  case True
  then show ?thesis by (simp add: round_half_even_of_int)
next
  case False
  with assms have "x < of_int n" by simp
  then have "\<lfloor>x\<rfloor> < n" by (simp add: floor_less_iff)
  then show ?thesis using round_half_even_cases [of x] by auto
qed

lemma round_half_even_mono:
  assumes "x \<le> y"
  shows "round_half_even x \<le> round_half_even y"
proof (cases "\<lfloor>x\<rfloor> = \<lfloor>y\<rfloor>")
  case True
  with assms show ?thesis
    by (auto simp: round_half_even_def Let_def)
next
  case False
  with assms have "\<lfloor>x\<rfloor> < \<lfloor>y\<rfloor>"
    using floor_mono [of x y] by simp
  then have "round_half_even x \<le> \<lfloor>y\<rfloor>"
    using round_half_even_cases [of x] by auto
  also have "\<lfloor>y\<rfloor> \<le> round_half_even y"
    using round_half_even_cases [of y] by auto
  finally show ?thesis .
qed

lemma round_mag_nonneg: "0 \<le> x \<Longrightarrow> 0 \<le> round_mag x"
  using round_half_even_ge [of 0 "x / pow2 (expo x - 52)"] pow2_pos [of "expo x - 52"]
  by (simp add: round_mag_def Let_def)

lemma round_mag_upper:
  assumes "expo x < 1023"
  shows "round_mag x \<le> pow2 (expo x + 1)"
proof -
  let ?q = "pow2 (expo x - 52)"
  have q: "0 < ?q" by (rule pow2_pos)
  have "pow2 53 = 2 ^ 53" by (simp add: pow2_def)
  then have split: "pow2 (expo x + 1) = 2 ^ 53 * ?q"
    using pow2_add [of 53 "expo x - 52"] by (simp add: algebra_simps)
  have "x < 2 ^ 53 * ?q" using expo_upper [OF assms] split by simp
  then have "x / ?q \<le> of_int (2 ^ 53)" using q by (simp add: pos_divide_le_eq)
  then have "round_half_even (x / ?q) \<le> 2 ^ 53" by (rule round_half_even_le)
  then have "(of_int (round_half_even (x / ?q)) :: real) \<le> 2 ^ 53"
    by (metis of_int_le_iff of_int_numeral of_int_power)
  then show ?thesis using q by (simp add: round_mag_def Let_def split)
qed

lemma round_mag_lower:
  assumes "- 1022 < expo x"
  shows "pow2 (expo x) \<le> round_mag x"
proof -
  let ?q = "pow2 (expo x - 52)"
  have q: "0 < ?q" by (rule pow2_pos)
  have "pow2 52 = 2 ^ 52" by (simp add: pow2_def)
  then have split: "pow2 (expo x) = 2 ^ 52 * ?q"
    using pow2_add [of 52 "expo x - 52"] by (simp add: algebra_simps)
  have "2 ^ 52 * ?q \<le> x" using expo_lower [OF assms] split by simp
  then have "of_int (2 ^ 52) \<le> x / ?q" using q by (simp add: pos_le_divide_eq)
  then have "2 ^ 52 \<le> round_half_even (x / ?q)" by (rule round_half_even_ge)
  then have "(2 ^ 52 :: real) \<le> of_int (round_half_even (x / ?q))"
    by (metis of_int_le_iff of_int_numeral of_int_power)
  then show ?thesis using q by (simp add: round_mag_def Let_def split)
qed

lemma round_mag_mono:
  assumes "x \<le> y"
  shows "round_mag x \<le> round_mag y"
proof (cases "expo x = expo y")
  case True
  let ?q = "pow2 (expo y - 52)"
  have q: "0 < ?q" by (rule pow2_pos)
  have "x / ?q \<le> y / ?q" using assms q by (simp add: divide_right_mono)
  then have "round_half_even (x / ?q) \<le> round_half_even (y / ?q)"
    by (rule round_half_even_mono)
  then show ?thesis using q True by (simp add: round_mag_def Let_def)
next
  case False
  then have lt: "expo x < expo y" using expo_mono [OF assms] by simp
  have "round_mag x \<le> pow2 (expo x + 1)"
    using lt expo_range(2) [of y] by (intro round_mag_upper) simp
  also have "pow2 (expo x + 1) \<le> pow2 (expo y)"
    using lt by (intro pow2_mono) simp
  also have "pow2 (expo y) \<le> round_mag y"
    using lt expo_range(1) [of x] by (intro round_mag_lower) simp
  finally show ?thesis .
qed

subsection \<open>Sums and products of floats that are not negative\<close>

lemma nonneg_is_double: "is_double x \<Longrightarrow> fle (Fin False 0) x \<Longrightarrow> nonneg x"
  by (cases x) (auto simp: sval_def split: if_splits)

lemma round_mag_0: "round_mag 0 = 0"
  by (simp add: round_mag_def round_half_even_def)

lemma fround_0: "fround s 0 = Fin s 0"
  by (simp add: fround_def round_mag_0)

lemma sval_0: "sval s 0 = 0"
  by (simp add: sval_def)

lemma nonneg_fround: "0 \<le> x \<Longrightarrow> (s \<longrightarrow> x = 0) \<Longrightarrow> nonneg (fround s x)"
  by (auto simp: fround_def Let_def round_mag_nonneg round_mag_0)

lemma fle_fround:
  assumes "x \<le> y"
  shows "fle (fround False x) (fround False y)"
  using round_mag_mono [OF assms] by (auto simp: fround_def Let_def sval_def)

lemma fle_fround_zero:
  assumes "0 \<le> y"
  shows "fle (Fin s 0) (fround False y)"
  using round_mag_nonneg [OF assms] by (auto simp: fround_def Let_def sval_def)

lemma nonneg_fmul:
  assumes "nonneg a" and "0 < k"
  shows "nonneg (fmul a (Fin False k))"
  using assms by (cases a) (auto intro!: nonneg_fround)

lemma fle_fmul:
  assumes "nonneg a" and "nonneg b" and "fle a b" and "0 < k"
  shows "fle (fmul a (Fin False k)) (fmul b (Fin False k))"
proof (cases a)
  case (Fin s x)
  note a = this
  show ?thesis
  proof (cases b)
    case (Fin t y)
    show ?thesis
    proof (cases "s \<or> t")
      case False
      then have "x * k \<le> y * k"
        using assms a Fin by (simp add: sval_def mult_right_mono)
      then show ?thesis using False a Fin by (simp add: fle_fround)
    next
      case True
      then show ?thesis
        using assms a Fin
        by (cases s; cases t) (auto simp: sval_def fle_fround_zero fround_0)
    qed
  next
    case (Inf t)
    then show ?thesis using assms a by (auto simp: fround_def Let_def)
  next
    case NaN
    then show ?thesis using assms by simp
  qed
next
  case (Inf s)
  then show ?thesis using assms by (cases b) auto
next
  case NaN
  then show ?thesis using assms by simp
qed

lemma nonneg_fadd:
  assumes "nonneg a" and "nonneg b"
  shows "nonneg (fadd a b)"
  using assms by (cases a; cases b) (auto simp: sval_def Let_def intro!: nonneg_fround)

lemma fle_fadd_left:
  assumes "nonneg a" and "nonneg a'" and "nonneg b" and "fle a a'"
  shows "fle (fadd a b) (fadd a' b)"
proof (cases b)
  case (Fin u z)
  note b = this
  show ?thesis
  proof (cases a)
    case (Fin s x)
    note a = this
    show ?thesis
    proof (cases a')
      case (Fin t y)
      have le: "x + z \<le> y + z" and nn: "0 \<le> x" "0 \<le> y" "0 \<le> z"
        using assms a b Fin by (auto simp: sval_def split: if_splits)
      have vals: "sval s x = x" "sval t y = y" "sval u z = z"
        using assms a b Fin by (auto simp: sval_def)
      show ?thesis
        using le nn fle_fround [OF le] fle_fround_zero [of "y + z"]
        by (auto simp: a b Fin vals Let_def sval_0)
    next
      case (Inf t)
      then show ?thesis using assms a b by (auto simp: Let_def fround_def)
    next
      case NaN
      then show ?thesis using assms by simp
    qed
  next
    case (Inf s)
    then show ?thesis using assms b by (cases a') auto
  next
    case NaN
    then show ?thesis using assms by simp
  qed
next
  case (Inf u)
  then show ?thesis using assms by (cases a; cases a') auto
next
  case NaN
  then show ?thesis using assms by simp
qed

lemma fadd_commute: "fadd a b = fadd b a"
  by (cases a; cases b) (auto simp: Let_def add.commute conj_commute)

lemma fle_fadd_right:
  assumes "nonneg a" and "nonneg b" and "nonneg b'" and "fle b b'"
  shows "fle (fadd a b) (fadd a b')"
  using fle_fadd_left [of b b' a] assms by (simp add: fadd_commute)

lemma nonneg_fle:
  assumes "nonneg a" and "is_double b" and "fle a b"
  shows "nonneg b"
  using assms by (cases a; cases b) (auto simp: sval_def split: if_splits)

lemma fle_weighted_sum_left:
  assumes "nonneg c" and "nonneg c'" and "nonneg h" and "fle c c'"
    and "0 < k1" and "0 < k2" and "0 < k3"
  shows "fle (fmul (fadd (fmul c (Fin False k1)) (fmul h (Fin False k2))) (Fin False k3))
             (fmul (fadd (fmul c' (Fin False k1)) (fmul h (Fin False k2))) (Fin False k3))"
proof -
  have "fle (fmul c (Fin False k1)) (fmul c' (Fin False k1))"
    using assms by (intro fle_fmul)
  then have "fle (fadd (fmul c (Fin False k1)) (fmul h (Fin False k2)))
                 (fadd (fmul c' (Fin False k1)) (fmul h (Fin False k2)))"
    using assms by (intro fle_fadd_left nonneg_fmul)
  then show ?thesis
    using assms by (intro fle_fmul nonneg_fadd nonneg_fmul)
qed

lemma fle_weighted_sum_right:
  assumes "nonneg c" and "nonneg h" and "nonneg h'" and "fle h h'"
    and "0 < k1" and "0 < k2" and "0 < k3"
  shows "fle (fmul (fadd (fmul c (Fin False k1)) (fmul h (Fin False k2))) (Fin False k3))
             (fmul (fadd (fmul c (Fin False k1)) (fmul h' (Fin False k2))) (Fin False k3))"
proof -
  have "fle (fmul h (Fin False k2)) (fmul h' (Fin False k2))"
    using assms by (intro fle_fmul)
  then have "fle (fadd (fmul c (Fin False k1)) (fmul h (Fin False k2)))
                 (fadd (fmul c (Fin False k1)) (fmul h' (Fin False k2)))"
    using assms by (intro fle_fadd_right nonneg_fmul)
  then show ?thesis
    using assms by (intro fle_fmul nonneg_fadd nonneg_fmul)
qed

section \<open>The rounding is to a nearest double\<close>

text \<open>
  The doubles of \<open>is_double\<close> are the numbers of the format, the rounding of a magnitude
  is one of them unless it overflows, and none of them is closer to the magnitude.
\<close>

lemma expo_unique:
  assumes "- 1022 \<le> e" and "e \<le> 1023"
    and "- 1022 < e \<Longrightarrow> pow2 e \<le> x" and "e < 1023 \<Longrightarrow> x < pow2 (e + 1)"
  shows "expo x = e"
proof (rule ccontr)
  assume ne: "expo x \<noteq> e"
  show False
  proof (cases "expo x < e")
    case True
    then have "expo x < 1023" using assms(2) by simp
    then have "x < pow2 (expo x + 1)" by (rule expo_upper)
    also have "pow2 (expo x + 1) \<le> pow2 e" using True by (intro pow2_mono) simp
    also have "pow2 e \<le> x" using True expo_range(1) [of x] by (intro assms(3)) simp
    finally show False by simp
  next
    case False
    with ne have gt: "e < expo x" by simp
    then have "x < pow2 (e + 1)" using expo_range(2) [of x] by (intro assms(4)) simp
    also have "pow2 (e + 1) \<le> pow2 (expo x)" using gt by (intro pow2_mono) simp
    also have "pow2 (expo x) \<le> x" using gt assms(1) by (intro expo_lower) simp
    finally show False by simp
  qed
qed

lemma pow2_diff: "pow2 (a - b) = pow2 a / pow2 b"
  by (simp add: pow2_powi power_int_diff)

lemma pow2_nat: "0 \<le> k \<Longrightarrow> pow2 k = of_int (2 ^ nat k)"
  by (simp add: pow2_def)

lemma pow2_53: "pow2 53 = 2 ^ 53" and pow2_52: "pow2 52 = 2 ^ 52"
  by (simp_all add: pow2_def)

text \<open>A representable magnitude is a multiple of the quantum of its own binade.\<close>

lemma representable_quantum:
  assumes "representable a"
  shows "\<exists>n. a = of_int n * pow2 (expo a - 52)"
proof -
  obtain m k where a: "a = of_int m * pow2 k" and m: "0 \<le> m" "m < 2 ^ 53"
    and k: "- 1074 \<le> k" "k \<le> 971"
    using assms by (auto simp: representable_def)
  have le: "expo a - 52 \<le> k"
  proof (cases "- 1022 < expo a")
    case True
    have "of_int m < (2 ^ 53 :: real)"
      using m(2) by (metis of_int_less_iff of_int_numeral of_int_power)
    then have "a < 2 ^ 53 * pow2 k" using a pow2_pos [of k] by simp
    then have "a < pow2 (k + 53)" by (simp add: pow2_add pow2_53)
    moreover have "pow2 (expo a) \<le> a" using True by (rule expo_lower)
    ultimately have "pow2 (expo a) < pow2 (k + 53)" by simp
    then have "expo a < k + 53"
      using pow2_mono [of "k + 53" "expo a"] by (cases "expo a < k + 53") auto
    then show ?thesis by simp
  next
    case False
    then show ?thesis using k expo_range(1) [of a] by simp
  qed
  have "pow2 k = pow2 (k - (expo a - 52)) * pow2 (expo a - 52)"
    using pow2_add [of "k - (expo a - 52)" "expo a - 52"] by simp
  also have "pow2 (k - (expo a - 52)) = of_int (2 ^ nat (k - (expo a - 52)))"
    using le by (intro pow2_nat) simp
  finally have "a = of_int (m * 2 ^ nat (k - (expo a - 52))) * pow2 (expo a - 52)"
    using a by simp
  then show ?thesis ..
qed

lemma representable_fixed:
  assumes "representable a"
  shows "round_mag a = a"
proof -
  obtain n where n: "a = of_int n * pow2 (expo a - 52)"
    using representable_quantum [OF assms] ..
  have "a / pow2 (expo a - 52) = of_int n"
    using pow2_pos [of "expo a - 52"] by (subst n) simp
  then show ?thesis using n by (simp add: round_mag_def Let_def round_half_even_of_int)
qed

lemma representable_bounds:
  assumes "representable a"
  shows "0 \<le> a" and "a < 2 ^ 1024"
proof -
  obtain m k where a: "a = of_int m * pow2 k" and m: "0 \<le> m" "m < 2 ^ 53"
    and k: "- 1074 \<le> k" "k \<le> 971"
    using assms by (auto simp: representable_def)
  show "0 \<le> a" using a m pow2_pos [of k] by simp
  have "of_int m < (2 ^ 53 :: real)"
    using m(2) by (metis of_int_less_iff of_int_numeral of_int_power)
  then have "a < 2 ^ 53 * pow2 k" using a pow2_pos [of k] by simp
  also have "\<dots> \<le> 2 ^ 53 * pow2 971" using k pow2_mono [of k 971] by simp
  also have "\<dots> = 2 ^ 1024" by (simp add: pow2_def)
  finally show "a < 2 ^ 1024" .
qed

lemma round_mag_representable:
  assumes "0 \<le> x" and "round_mag x < 2 ^ 1024"
  shows "representable (round_mag x)"
proof -
  let ?e = "expo x"
  let ?q = "pow2 (?e - 52)"
  let ?m = "round_half_even (x / ?q)"
  have q: "0 < ?q" by (rule pow2_pos)
  have rm: "round_mag x = of_int ?m * ?q" by (simp add: round_mag_def Let_def)
  have m0: "0 \<le> ?m" using assms(1) q round_half_even_ge [of 0 "x / ?q"] by simp
  have top: "pow2 1024 = 2 ^ 1024" by (simp add: pow2_def)
  show ?thesis
  proof (cases "?m < 2 ^ 53")
    case True
    then show ?thesis
      unfolding representable_def rm
      using m0 expo_range [of x] by (intro exI [of _ ?m] exI [of _ "?e - 52"]) simp
  next
    case False
    have e: "?e < 1023"
    proof (rule ccontr)
      assume "\<not> ?e < 1023"
      then have e: "?e = 1023" using expo_range(2) [of x] by simp
      have "(2 ^ 53 :: real) \<le> of_int ?m"
        using False by (metis not_less of_int_le_iff of_int_numeral of_int_power)
      then have "2 ^ 53 * ?q \<le> round_mag x" using q rm by simp
      moreover have "2 ^ 53 * ?q = 2 ^ 1024" by (simp add: e pow2_def)
      ultimately show False using assms(2) by simp
    qed
    have "round_mag x \<le> pow2 (?e + 1)" using e by (rule round_mag_upper)
    moreover have "pow2 (?e + 1) = 2 ^ 53 * ?q"
      using pow2_add [of 53 "?e - 52"] by (simp add: pow2_53 algebra_simps)
    moreover have "(2 ^ 53 :: real) \<le> of_int ?m"
      using False by (metis not_less of_int_le_iff of_int_numeral of_int_power)
    ultimately have "round_mag x = 2 ^ 53 * ?q" using q rm by simp
    also have "\<dots> = of_int (2 ^ 52) * pow2 (?e - 51)"
      using pow2_add [of 1 "?e - 52"] by (simp add: pow2_def algebra_simps)
    finally show ?thesis
      unfolding representable_def
      using e expo_range(1) [of x] by (intro exI [of _ "2 ^ 52"] exI [of _ "?e - 51"]) simp
  qed
qed

lemma is_double_iff: "is_double (Fin s a) \<longleftrightarrow> representable a"
proof
  assume "is_double (Fin s a)"
  then have "0 \<le> a" and "round_mag a < 2 ^ 1024" and "round_mag a = a" by simp_all
  then show "representable a" using round_mag_representable [of a] by simp
next
  assume "representable a"
  then show "is_double (Fin s a)"
    using representable_bounds [of a] representable_fixed [of a] by simp
qed

lemma round_half_even_nearest: "\<bar>of_int (round_half_even z) - z\<bar> \<le> \<bar>of_int n - z\<bar>"
proof -
  have fl: "of_int \<lfloor>z\<rfloor> \<le> z" "z < of_int \<lfloor>z\<rfloor> + 1" by linarith+
  consider "n \<le> \<lfloor>z\<rfloor>" | "\<lfloor>z\<rfloor> + 1 \<le> n" by linarith
  then show ?thesis
  proof cases
    case 1
    then have "(of_int n :: real) \<le> of_int \<lfloor>z\<rfloor>" by simp
    then show ?thesis using fl round_half_even_cases [of z] by auto
  next
    case 2
    then have "(of_int \<lfloor>z\<rfloor> :: real) + 1 \<le> of_int n"
      by (metis of_int_1 of_int_add of_int_le_iff)
    then show ?thesis using fl round_half_even_cases [of z] by auto
  qed
qed

lemma abs_scale:
  fixes n q x :: real
  assumes "0 < q"
  shows "\<bar>n * q - x\<bar> = \<bar>n - x / q\<bar> * q"
proof -
  have "n * q - x = (n - x / q) * q" using assms by (simp add: field_simps)
  then have "\<bar>n * q - x\<bar> = \<bar>n - x / q\<bar> * \<bar>q\<bar>" by (simp only: abs_mult)
  then show ?thesis using assms by simp
qed

lemma round_mag_nearest_multiple:
  "\<bar>round_mag x - x\<bar> \<le> \<bar>of_int n * pow2 (expo x - 52) - x\<bar>"
proof -
  let ?q = "pow2 (expo x - 52)"
  have q: "0 < ?q" by (rule pow2_pos)
  have "\<bar>round_mag x - x\<bar> = \<bar>of_int (round_half_even (x / ?q)) - x / ?q\<bar> * ?q"
    using abs_scale [OF q] by (simp add: round_mag_def Let_def)
  also have "\<dots> \<le> \<bar>of_int n - x / ?q\<bar> * ?q"
    using q round_half_even_nearest [of "x / ?q" n] by (simp add: mult_right_mono)
  also have "\<dots> = \<bar>of_int n * ?q - x\<bar>"
    using abs_scale [OF q] by simp
  finally show ?thesis .
qed

text \<open>No representable magnitude is closer to \<open>x\<close> than the rounding of \<open>x\<close>.\<close>

lemma round_mag_nearest:
  assumes "representable y"
  shows "\<bar>round_mag x - x\<bar> \<le> \<bar>y - x\<bar>"
proof -
  let ?e = "expo x"
  let ?q = "pow2 (?e - 52)"
  consider "expo y = ?e" | "expo y < ?e" | "?e < expo y" by linarith
  then show ?thesis
  proof cases
    case 1
    then obtain n where "y = of_int n * ?q"
      using representable_quantum [OF assms] by auto
    then show ?thesis using round_mag_nearest_multiple [of x n] by simp
  next
    case 2
    have "y < pow2 (expo y + 1)"
      using 2 expo_range(2) [of x] by (intro expo_upper) simp
    also have "pow2 (expo y + 1) \<le> pow2 ?e" using 2 by (intro pow2_mono) simp
    finally have y: "y < pow2 ?e" .
    have x: "pow2 ?e \<le> x" using 2 expo_range(1) [of y] by (intro expo_lower) simp
    have "pow2 ?e = of_int (2 ^ 52) * ?q"
      using pow2_add [of 52 "?e - 52"] by (simp add: pow2_52)
    then have "\<bar>round_mag x - x\<bar> \<le> \<bar>pow2 ?e - x\<bar>"
      using round_mag_nearest_multiple [of x "2 ^ 52"] by simp
    then show ?thesis using x y by simp
  next
    case 3
    have x: "x < pow2 (?e + 1)"
      using 3 expo_range(2) [of y] by (intro expo_upper) simp
    have "pow2 (?e + 1) \<le> pow2 (expo y)" using 3 by (intro pow2_mono) simp
    also have "pow2 (expo y) \<le> y" using 3 expo_range(1) [of x] by (intro expo_lower) simp
    finally have y: "pow2 (?e + 1) \<le> y" .
    have "pow2 (?e + 1) = of_int (2 ^ 53) * ?q"
      using pow2_add [of 53 "?e - 52"] by (simp add: pow2_53 algebra_simps)
    then have "\<bar>round_mag x - x\<bar> \<le> \<bar>pow2 (?e + 1) - x\<bar>"
      using round_mag_nearest_multiple [of x "2 ^ 53"] by simp
    then show ?thesis using x y by simp
  qed
qed

text \<open>On a tie the significand chosen is even.\<close>

lemma round_half_even_tie:
  "x - of_int \<lfloor>x\<rfloor> = 1 / 2 \<Longrightarrow> even (round_half_even x)"
  by (simp add: round_half_even_def Let_def)

subsection \<open>The operations return doubles\<close>

lemma is_double_fround:
  assumes "0 \<le> x"
  shows "is_double (fround s x)"
proof (cases "2 ^ 1024 \<le> round_mag x")
  case True
  then show ?thesis by (simp add: fround_def)
next
  case False
  then have "representable (round_mag x)"
    using assms by (intro round_mag_representable) simp_all
  then have "is_double (Fin s (round_mag x))" by (simp only: is_double_iff)
  then show ?thesis using False by (simp add: fround_def del: is_double.simps)
qed

lemma is_double_lit: "is_double (lit x)"
  by (simp add: lit_def is_double_fround)

lemma is_double_zero: "is_double (Fin s 0)"
  by (simp add: round_mag_0)

lemma is_double_fmul: "is_double a \<Longrightarrow> is_double b \<Longrightarrow> is_double (fmul a b)"
  by (cases a; cases b) (auto intro!: is_double_fround)

lemma is_double_fadd: "is_double a \<Longrightarrow> is_double b \<Longrightarrow> is_double (fadd a b)"
  by (cases a; cases b) (auto simp: Let_def round_mag_0 intro!: is_double_fround)

lemma is_double_fdiv: "is_double a \<Longrightarrow> is_double b \<Longrightarrow> is_double (fdiv a b)"
  by (cases a; cases b) (auto simp: round_mag_0 intro!: is_double_fround)

lemma is_double_terraform_cost:
  "is_double c \<Longrightarrow> is_double h \<Longrightarrow> is_double (terraform_cost c h)"
  by (simp add: terraform_cost_def is_double_fmul is_double_fadd is_double_lit)

section \<open>Evaluating floats\<close>

text \<open>The equations that compute a rounding on numerals, and the constants of the chain.\<close>

lemmas fl_eval = lit_def fround_def round_mag_def round_half_even_def expo_def
  expo_up.simps expo_down.simps pow2_def Let_def sval_def

lemmas gh_consts = BTU_PER_DEGREE_HOUR_PER_SQFT_def KWH_PER_BTU_def TYPICAL_SQFT_def TYPICAL_HEIGHT_FT_def
  AIR_CHANGES_PER_HOUR_def INFILTRATION_FACTOR_def GREENHOUSE_EFFECT_FACTOR_def HEATING_SYSTEM_COP_def
  COOLING_SYSTEM_COP_def NATURAL_GAS_PER_KWH_def ELECTRICITY_PER_KWH_def

lemma res1_value: "res1 = Inr (Fin False (4704878555156603 / 9007199254740992))"
  by (simp add: res1_def py_truediv_def terraform_cost_def fl_eval)

lemma sample_quotient: "py_truediv (lit 78) (lit 1000) = Inr (lit 0.078)"
  by (simp add: py_truediv_def fl_eval)

lemma sample_expression:
  "fmul (fadd (fmul (lit 0.078) (lit 2.74)) (fmul (lit 0.89) (lit 0.251))) (lit 1.195) =
     Fin False (4704878555156603 / 9007199254740992)"
  by (simp add: fl_eval)

lemma terraform_cost_value:
  "terraform_cost c h =
     fmul (fadd (fmul c (Fin False (1542482872374395 / 562949953421312)))
                (fmul h (Fin False (2260807012939989 / 9007199254740992))))
          (Fin False (5381801554707743 / 4503599627370496))"
  by (simp add: terraform_cost_def fl_eval)

lemma small_doubles:
  "is_double (Fin False 1)" "is_double (Fin False 2)" "is_double (Fin False 3)"
  by (simp_all add: fl_eval)

lemma additivity_samples:
  "terraform_cost (fadd (Fin False 1) (Fin False 1)) (Fin False 1) =
     Fin False (120480877773555 / 17592186044416)"
  "fadd (terraform_cost (Fin False 1) (Fin False 1)) (terraform_cost (Fin False 1) (Fin False 1)) =
     Fin False (4024242112532715 / 562949953421312)"
  by (simp_all add: terraform_cost_def fl_eval)

lemma greenhouse_chain_value:
  "greenhouse_chain =
     Inr \<lparr>baseEnergyPerDegreeHour = Fin False 2400,
          volumeEffect = Fin False 3,
          adjustedEnergy = Fin False 8640,
          heatingBtuPerDegreeHour = Fin False (1074635799093285 / 137438953472),
          coolingBtuPerDegreeHour = Fin False (4939885841272013 / 1099511627776),
          heatingKwhPerDegreeHour = Fin False (1290013033578775 / 562949953421312),
          coolingKwhPerDegreeHour = Fin False (2964965956377457 / 2251799813685248),
          heatingKwhPerSqft = Fin False (2113557354215465 / 9223372036854775808),
          coolingKwhPerSqft = Fin False (2428900111464413 / 18446744073709551616),
          heatingKwhPerSqm = Fin False (5687530001259961 / 2305843009213693952),
          coolingKwhPerSqm = Fin False (6536109477447949 / 4611686018427387904),
          heatingCostPerDegreeHour = Fin False (51600521343151 / 562949953421312),
          coolingCostPerDegreeHour = Fin False (5692734636244717 / 36028797018963968)\<rparr>"
  by (simp add: greenhouse_chain_def bind_err_def py_truediv_def gh_consts fl_eval)

lemma divisors_nonzero:
  "\<not> is_zero (lit 8) \<and> \<not> is_zero HEATING_SYSTEM_COP \<and> \<not> is_zero GREENHOUSE_EFFECT_FACTOR \<and>
   \<not> is_zero COOLING_SYSTEM_COP \<and> \<not> is_zero TYPICAL_SQFT"
  by (simp add: gh_consts fl_eval)

lemma int_axis_cells:
  "cell_value (lit 19.17) ''kg'' (Int64 78) (Float64 (lit 0.89)) =
     Fin False (4704878555156603 / 9007199254740992)"
  "cell_value (lit 19.17) ''kg'' (Int64 250) (Float64 (lit 0.89)) =
     Fin False (4888774714280967 / 4503599627370496)"
  "cell_value (lit 19.17) ''kcf'' (Int64 78) (Float64 (lit 0.89)) =
     Fin False (5637032618897005 / 562949953421312)"
  "cell_value (lit 19.17) ''kcf'' (Int64 250) (Float64 (lit 0.89)) =
     Fin False (1464340801136971 / 70368744177664)"
  by (simp_all add: cell_value_def terraform_cost_def fl_eval)

lemma int_axis_grid:
  "graph_Z (IntArray [78, 250]) (FloatArray [lit 0.89]) units (cell_1 Map.empty) =
     Inr \<lparr>dtype = dt_int64, shape = (1, 2),
          rows = [[Int64 (cast_int64 (cell_value (lit 19.17) units (Int64 78) (Float64 (lit 0.89)))),
                   Int64 (cast_int64 (cell_value (lit 19.17) units (Int64 250) (Float64 (lit 0.89))))]]\<rparr>"
proof -
  have "[0..<2] = [0, Suc 0]" by (simp add: upt_rec)
  then show ?thesis
    using graph_Z_rows [of units "cell_1 Map.empty" "lit 19.17" "IntArray [78, 250]"
        "FloatArray [lit 0.89]"]
    by (simp add: cell_1_def len_def)
qed

lemma float_cells:
  "terraform_cost (fdiv (lit 78) (lit 1000)) (lit 0.89) =
     Fin False (4704878555156603 / 9007199254740992)"
  "terraform_cost (fdiv (lit 250) (lit 1000)) (lit 0.89) =
     Fin False (4888774714280967 / 4503599627370496)"
  by (simp_all add: terraform_cost_def fl_eval)

lemma zero_times_constant: "fmul (as_float (Int64 0)) (lit 19.17) = Fin False 0"
  by (simp add: fl_eval)

lemma greenhouse_constants:
  "BTU_PER_DEGREE_HOUR_PER_SQFT = Fin False (1080863910568919 / 4503599627370496)"
  "KWH_PER_BTU = Fin False (1351551433106533 / 4611686018427387904)"
  "TYPICAL_SQFT = Fin False 10000"
  "TYPICAL_HEIGHT_FT = Fin False 16"
  "AIR_CHANGES_PER_HOUR = Fin False (3 / 2)"
  "INFILTRATION_FACTOR = Fin False (5404319552844595 / 4503599627370496)"
  "GREENHOUSE_EFFECT_FACTOR = Fin False (5854679515581645 / 4503599627370496)"
  "HEATING_SYSTEM_COP = Fin False (7656119366529843 / 9007199254740992)"
  "COOLING_SYSTEM_COP = Fin False (5 / 2)"
  "NATURAL_GAS_PER_KWH = Fin False (5764607523034235 / 144115188075855872)"
  "ELECTRICITY_PER_KWH = Fin False (1080863910568919 / 9007199254740992)"
  by (simp_all add: gh_consts fl_eval)

lemma greenhouse_cell_value:
  "greenhouse_cell (e, out) =
     Inr (e(''BTU_PER_DEGREE_HOUR_PER_SQFT'' \<mapsto> Fin False (1080863910568919 / 4503599627370496),
            ''KWH_PER_BTU'' \<mapsto> Fin False (1351551433106533 / 4611686018427387904),
            ''TYPICAL_SQFT'' \<mapsto> Fin False 10000,
            ''TYPICAL_HEIGHT_FT'' \<mapsto> Fin False 16,
            ''AIR_CHANGES_PER_HOUR'' \<mapsto> Fin False (3 / 2),
            ''INFILTRATION_FACTOR'' \<mapsto> Fin False (5404319552844595 / 4503599627370496),
            ''GREENHOUSE_EFFECT_FACTOR'' \<mapsto> Fin False (5854679515581645 / 4503599627370496),
            ''HEATING_SYSTEM_COP'' \<mapsto> Fin False (7656119366529843 / 9007199254740992),
            ''COOLING_SYSTEM_COP'' \<mapsto> Fin False (5 / 2),
            ''baseEnergyPerDegreeHour'' \<mapsto> Fin False 2400,
            ''volumeEffect'' \<mapsto> Fin False 3,
            ''adjustedEnergy'' \<mapsto> Fin False 8640,
            ''heatingBtuPerDegreeHour'' \<mapsto> Fin False (1074635799093285 / 137438953472),
            ''coolingBtuPerDegreeHour'' \<mapsto> Fin False (4939885841272013 / 1099511627776),
            ''heatingKwhPerDegreeHour'' \<mapsto> Fin False (1290013033578775 / 562949953421312),
            ''coolingKwhPerDegreeHour'' \<mapsto> Fin False (2964965956377457 / 2251799813685248),
            ''NATURAL_GAS_PER_KWH'' \<mapsto> Fin False (5764607523034235 / 144115188075855872),
            ''ELECTRICITY_PER_KWH'' \<mapsto> Fin False (1080863910568919 / 9007199254740992),
            ''heatingCostPerDegreeHour'' \<mapsto> Fin False (51600521343151 / 562949953421312),
            ''coolingCostPerDegreeHour'' \<mapsto> Fin False (5692734636244717 / 36028797018963968)),
          out @
          [Fin False (1290013033578775 / 562949953421312),
           Fin False (2964965956377457 / 2251799813685248),
           Fin False (2113557354215465 / 9223372036854775808),
           Fin False (2428900111464413 / 18446744073709551616),
           Fin False (5687530001259961 / 2305843009213693952),
           Fin False (6536109477447949 / 4611686018427387904),
           Fin False (51600521343151 / 562949953421312),
           Fin False (5692734636244717 / 36028797018963968)])"
  by (simp add: greenhouse_cell_def assign_def print_value_def e_const_def e_var_def e_mul_def
      e_div_def lookup_def bind_err_def py_truediv_def gh_consts fl_eval)

lemma greenhouse_cell_runs:
  "case greenhouse_chain of
     Inl err \<Rightarrow> False
   | Inr gh \<Rightarrow>
       greenhouse_cell (e, out) = Inr (assign_all (chain_bindings gh) e, out @ chain_printed gh)"
  unfolding greenhouse_chain_value greenhouse_cell_value
  by (simp add: assign_all_def chain_bindings_def chain_printed_def greenhouse_constants)

section \<open>The methane cost function\<close>

text \<open>
  C1. For every pair of floats \<open>co2_price\<close> and \<open>h2_price\<close>, \<open>terraform_cost\<close> returns the
  float expression \<^verbatim>\<open>(co2_price * 2.74 + h2_price * 0.251) * 1.195\<close>: two products, a sum
  and a product of floats. It is a function of its two arguments only.
\<close>

theorem terraform_cost_formula:
  "terraform_cost co2_price h2_price =
     fmul (fadd (fmul co2_price (lit 2.74)) (fmul h2_price (lit 0.251))) (lit 1.195)"
  by (simp add: terraform_cost_def)

text \<open>
  C2, as the specification states it, fails: the sample call \<^verbatim>\<open>terraform_cost(78/1000, 0.89)\<close>
  does not return a value near 0.5108, not even within 0.01.
\<close>

theorem res1_not_5108: "\<not> approx_res res1 0.5108 0.01"
  by (simp add: res1_value approx_res_def sval_def)

text \<open>
  C2, amended: the sample call returns the float expression
  \<^verbatim>\<open>(0.078*2.74 + 0.89*0.251)*1.195\<close>, which is 0.5223 to four decimals.
\<close>

theorem res1_5223:
  "res1 = Inr (fmul (fadd (fmul (lit 0.078) (lit 2.74)) (fmul (lit 0.89) (lit 0.251))) (lit 1.195))
   \<and> approx_res res1 0.5223 0.00005"
proof
  show "res1 = Inr (fmul (fadd (fmul (lit 0.078) (lit 2.74)) (fmul (lit 0.89) (lit 0.251)))
                      (lit 1.195))"
    unfolding sample_expression by (rule res1_value)
  show "approx_res res1 0.5223 0.00005"
    by (simp add: res1_value approx_res_def sval_def)
qed

text \<open>
  C7, as the specification states it, fails: the cost is not additive and not homogeneous
  in one argument with the other held fixed (\<open>f(1+1, 1)\<close> is 6.848545 and
  \<open>f(1, 1) + f(1, 1)\<close> is 7.14849, the hydrogen term counted twice), and rounding breaks
  additivity even with the other argument zero, or in both arguments together.
\<close>

theorem terraform_cost_not_additive:
  "terraform_cost (fadd (Fin False 1) (Fin False 1)) (Fin False 1) \<noteq>
     fadd (terraform_cost (Fin False 1) (Fin False 1)) (terraform_cost (Fin False 1) (Fin False 1))
   \<and> approx (terraform_cost (fadd (Fin False 1) (Fin False 1)) (Fin False 1)) 6.848545 0.000001
   \<and> approx (fadd (terraform_cost (Fin False 1) (Fin False 1))
                    (terraform_cost (Fin False 1) (Fin False 1))) 7.14849 0.000001
   \<and> terraform_cost (fmul (Fin False 2) (Fin False 1)) (Fin False 1) \<noteq>
     fmul (Fin False 2) (terraform_cost (Fin False 1) (Fin False 1))
   \<and> terraform_cost (fadd (Fin False 2) (Fin False 7)) (Fin False 0) \<noteq>
     fadd (terraform_cost (Fin False 2) (Fin False 0)) (terraform_cost (Fin False 7) (Fin False 0))
   \<and> terraform_cost (fadd (Fin False 1) (Fin False 1)) (fadd (Fin False 1) (Fin False 2)) \<noteq>
     fadd (terraform_cost (Fin False 1) (Fin False 1)) (terraform_cost (Fin False 1) (Fin False 2))"
proof (intro conjI)
  show "terraform_cost (fadd (Fin False 1) (Fin False 1)) (Fin False 1) \<noteq>
     fadd (terraform_cost (Fin False 1) (Fin False 1)) (terraform_cost (Fin False 1) (Fin False 1))"
    unfolding additivity_samples by simp
  show "approx (terraform_cost (fadd (Fin False 1) (Fin False 1)) (Fin False 1)) 6.848545 0.000001"
    unfolding additivity_samples by (simp add: sval_def)
  show "approx (fadd (terraform_cost (Fin False 1) (Fin False 1))
                    (terraform_cost (Fin False 1) (Fin False 1))) 7.14849 0.000001"
    unfolding additivity_samples by (simp add: sval_def)
  show "terraform_cost (fmul (Fin False 2) (Fin False 1)) (Fin False 1) \<noteq>
     fmul (Fin False 2) (terraform_cost (Fin False 1) (Fin False 1))"
    by (simp add: terraform_cost_def fl_eval)
  show "terraform_cost (fadd (Fin False 2) (Fin False 7)) (Fin False 0) \<noteq>
     fadd (terraform_cost (Fin False 2) (Fin False 0)) (terraform_cost (Fin False 7) (Fin False 0))"
    by (simp add: terraform_cost_def fl_eval)
  show "terraform_cost (fadd (Fin False 1) (Fin False 1)) (fadd (Fin False 1) (Fin False 2)) \<noteq>
     fadd (terraform_cost (Fin False 1) (Fin False 1)) (terraform_cost (Fin False 1) (Fin False 2))"
    by (simp add: terraform_cost_def fl_eval)
qed

text \<open>
  C7, amended: for all prices that are zero or more, the cost is monotonically
  non-decreasing in each argument: increasing either price while the other is held fixed
  never decreases the cost returned.
\<close>

theorem terraform_cost_monotone:
  assumes "is_double c" and "is_double c'" and "is_double h" and "is_double h'"
    and "fle (Fin False 0) c" and "fle (Fin False 0) h"
    and "fle c c'" and "fle h h'"
  shows "fle (terraform_cost c h) (terraform_cost c' h) \<and>
         fle (terraform_cost c h) (terraform_cost c h')"
proof
  have c: "nonneg c" and h: "nonneg h"
    using assms by (simp_all add: nonneg_is_double)
  have c': "nonneg c'" and h': "nonneg h'"
    using c h assms by (auto intro: nonneg_fle)
  show "fle (terraform_cost c h) (terraform_cost c' h)"
    unfolding terraform_cost_value
    using c c' h assms(7) by (intro fle_weighted_sum_left) simp_all
  show "fle (terraform_cost c h) (terraform_cost c h')"
    unfolding terraform_cost_value
    using c h h' assms(8) by (intro fle_weighted_sum_right) simp_all
qed

theorem terraform_cost_monotone_witness:
  "is_double (Fin False 1) \<and> is_double (Fin False 2) \<and> is_double (Fin False 3) \<and>
   fle (Fin False 0) (Fin False 1) \<and> fle (Fin False 1) (Fin False 2) \<and>
   fle (Fin False 1) (Fin False 3) \<and>
   fle (terraform_cost (Fin False 1) (Fin False 1)) (terraform_cost (Fin False 2) (Fin False 1)) \<and>
   fle (terraform_cost (Fin False 1) (Fin False 1)) (terraform_cost (Fin False 1) (Fin False 3))"
  using terraform_cost_monotone [of "Fin False 1" "Fin False 2" "Fin False 1" "Fin False 3"]
    small_doubles
  by (simp add: sval_def)

section \<open>The grid evaluation\<close>

text \<open>
  C9, at \<^verbatim>\<open>graph([78, 250], [0.89], "kg")\<close>. The CO2 axis is a list of ints, \<^verbatim>\<open>X\<close> and so
  \<^verbatim>\<open>Z = np.zeros_like(X)\<close> are arrays of \<^verbatim>\<open>int64\<close>, and each cost is cut to an integer when it
  is stored: the matrix is \<open>[[0, 1]]\<close>, where \<open>terraform_cost\<close> of the CO2 value divided by
  1000 and of the H2 value is 0.5223 and 1.0855.
\<close>

theorem graph_Z_int_axis_kg:
  "graph_Z (IntArray [78, 250]) (FloatArray [lit 0.89]) ''kg'' (cell_1 Map.empty) =
     Inr \<lparr>dtype = dt_int64, shape = (1, 2), rows = [[Int64 0, Int64 1]]\<rparr> \<and>
   approx (terraform_cost (fdiv (lit 78) (lit 1000)) (lit 0.89)) 0.5223 0.0001 \<and>
   approx (terraform_cost (fdiv (lit 250) (lit 1000)) (lit 0.89)) 1.0855 0.0001"
proof (intro conjI)
  show "graph_Z (IntArray [78, 250]) (FloatArray [lit 0.89]) ''kg'' (cell_1 Map.empty) =
     Inr \<lparr>dtype = dt_int64, shape = (1, 2), rows = [[Int64 0, Int64 1]]\<rparr>"
    unfolding int_axis_grid int_axis_cells by simp
  show "approx (terraform_cost (fdiv (lit 78) (lit 1000)) (lit 0.89)) 0.5223 0.0001"
    unfolding float_cells by (simp add: sval_def)
  show "approx (terraform_cost (fdiv (lit 250) (lit 1000)) (lit 0.89)) 1.0855 0.0001"
    unfolding float_cells by (simp add: sval_def)
qed

text \<open>
  C5, at \<^verbatim>\<open>graph([78, 250], [0.89], "kcf")\<close> after the first cell. For the same reason the
  matrix is \<open>[[10, 20]]\<close> in "kcf" mode and \<open>[[0, 1]]\<close> in "kg" mode: the first cell holds
  10, and the "kg" cell times 19.17 is 0.
\<close>

theorem graph_Z_int_axis_kcf:
  "graph_Z (IntArray [78, 250]) (FloatArray [lit 0.89]) ''kcf'' (cell_1 Map.empty) =
     Inr \<lparr>dtype = dt_int64, shape = (1, 2), rows = [[Int64 10, Int64 20]]\<rparr> \<and>
   graph_Z (IntArray [78, 250]) (FloatArray [lit 0.89]) ''kg'' (cell_1 Map.empty) =
     Inr \<lparr>dtype = dt_int64, shape = (1, 2), rows = [[Int64 0, Int64 1]]\<rparr> \<and>
   fmul (as_float (Int64 0)) (lit 19.17) = Fin False 0 \<and>
   as_float (Int64 10) \<noteq> Fin False 0"
proof (intro conjI)
  show "graph_Z (IntArray [78, 250]) (FloatArray [lit 0.89]) ''kcf'' (cell_1 Map.empty) =
     Inr \<lparr>dtype = dt_int64, shape = (1, 2), rows = [[Int64 10, Int64 20]]\<rparr>"
    unfolding int_axis_grid int_axis_cells by simp
  show "graph_Z (IntArray [78, 250]) (FloatArray [lit 0.89]) ''kg'' (cell_1 Map.empty) =
     Inr \<lparr>dtype = dt_int64, shape = (1, 2), rows = [[Int64 0, Int64 1]]\<rparr>"
    unfolding int_axis_grid int_axis_cells by simp
  show "fmul (as_float (Int64 0)) (lit 19.17) = Fin False 0"
    by (rule zero_times_constant)
  show "as_float (Int64 10) \<noteq> Fin False 0"
    by (simp add: fl_eval)
qed

text \<open>
  C6. With a unit selector other than "kg" and "kcf", \<open>graph\<close> raises the ValueError at
  once: nothing is saved and nothing is shown, the files and figures are what they were.
\<close>

theorem graph_unknown_units:
  assumes "units \<noteq> ''kg''" and "units \<noteq> ''kcf''"
  shows "graph xs ys units w = (Inl units_error, w)"
  using assms by (simp add: graph_def)

theorem graph_unknown_units_witness:
  "''lbs'' \<noteq> ''kg'' \<and> ''lbs'' \<noteq> ''kcf'' \<and>
   graph (FloatArray [lit 78, lit 250]) (FloatArray [lit 0.89]) ''lbs''
     \<lparr>globals = cell_1 Map.empty, font_family = ''Helvetica Neue'', saved = [], shown = []\<rparr> =
     (Inl (ValueError (''units must be 'kg' or 'kcf'' @ [CHR 0x27])),
      \<lparr>globals = cell_1 Map.empty, font_family = ''Helvetica Neue'', saved = [], shown = []\<rparr>)"
  using graph_unknown_units [of "''lbs''" "FloatArray [lit 78, lit 250]" "FloatArray [lit 0.89]"
      "\<lparr>globals = cell_1 Map.empty, font_family = ''Helvetica Neue'', saved = [], shown = []\<rparr>"]
  by (simp add: units_error_def)

text \<open>
  C8. No hidden state influences a result. From two states that agree on the constants
  \<^verbatim>\<open>graph\<close> reads (the global \<^verbatim>\<open>CH4_KG_PER_KCF\<close> and the font of pyplot), whatever else they
  hold, \<^verbatim>\<open>graph\<close> returns the same result, saves the same file and shows the same figure;
  it leaves the constants as they were, so a second call in a row does what the first
  did. The calls of \<open>terraform_cost\<close> in the loops do not influence one another: cells
  with the same CO2 and H2 values hold the same cost. And whatever the variables of the
  greenhouse notebook hold and whatever was printed before, its cell assigns the values
  of the chain and prints the same eight numbers.
\<close>

theorem no_hidden_state:
  assumes "globals w1 ''CH4_KG_PER_KCF'' = globals w2 ''CH4_KG_PER_KCF''"
    and "font_family w1 = font_family w2"
  shows "(fst (graph x y units w1) = fst (graph x y units w2) \<and>
          drop (length (saved w1)) (saved (snd (graph x y units w1))) =
            drop (length (saved w2)) (saved (snd (graph x y units w2))) \<and>
          drop (length (shown w1)) (shown (snd (graph x y units w1))) =
            drop (length (shown w2)) (shown (snd (graph x y units w2)))) \<and>
         (globals (snd (graph x y units w1)) = globals w1 \<and>
          font_family (snd (graph x y units w1)) = font_family w1) \<and>
         (fst (graph x y units (snd (graph x y units w1))) = fst (graph x y units w1) \<and>
          drop (length (saved (snd (graph x y units w1))))
            (saved (snd (graph x y units (snd (graph x y units w1))))) =
          drop (length (saved w1)) (saved (snd (graph x y units w1)))) \<and>
         (\<forall>Z. graph_Z x y units (globals w1) = Inr Z \<longrightarrow>
            (\<forall>i < len y. \<forall>i' < len y. \<forall>j < len x. \<forall>j' < len x.
               items x ! j = items x ! j' \<and> items y ! i = items y ! i' \<longrightarrow>
               getitem Z i j = getitem Z i' j')) \<and>
         (case greenhouse_chain of
            Inl err \<Rightarrow> False
          | Inr gh \<Rightarrow>
              greenhouse_cell (e, out) =
                Inr (assign_all (chain_bindings gh) e, out @ chain_printed gh))"
proof (intro conjI)
  show "fst (graph x y units w1) = fst (graph x y units w2)"
    and "drop (length (saved w1)) (saved (snd (graph x y units w1))) =
            drop (length (saved w2)) (saved (snd (graph x y units w2)))"
    and "drop (length (shown w1)) (shown (snd (graph x y units w1))) =
            drop (length (shown w2)) (shown (snd (graph x y units w2)))"
    using graph_reads [OF assms, of x y units] by simp_all
  show "globals (snd (graph x y units w1)) = globals w1"
    and "font_family (snd (graph x y units w1)) = font_family w1"
    using graph_keeps [of x y units w1] by simp_all
  show "fst (graph x y units (snd (graph x y units w1))) = fst (graph x y units w1)"
    and "drop (length (saved (snd (graph x y units w1))))
            (saved (snd (graph x y units (snd (graph x y units w1))))) =
          drop (length (saved w1)) (saved (snd (graph x y units w1)))"
    using graph_twice [of x y units w1] by simp_all
  show "\<forall>Z. graph_Z x y units (globals w1) = Inr Z \<longrightarrow>
            (\<forall>i < len y. \<forall>i' < len y. \<forall>j < len x. \<forall>j' < len x.
               items x ! j = items x ! j' \<and> items y ! i = items y ! i' \<longrightarrow>
               getitem Z i j = getitem Z i' j')"
    using graph_Z_same_inputs [of x y units "globals w1"] by blast
  show "case greenhouse_chain of
            Inl err \<Rightarrow> False
          | Inr gh \<Rightarrow>
              greenhouse_cell (e, out) =
                Inr (assign_all (chain_bindings gh) e, out @ chain_printed gh)"
    by (rule greenhouse_cell_runs)
qed

theorem no_hidden_state_witness:
  "globals \<lparr>globals = cell_1 Map.empty, font_family = ''Helvetica Neue'', saved = [], shown = []\<rparr>
     ''CH4_KG_PER_KCF'' =
   globals (snd (graph (FloatArray [lit 78, lit 250]) (FloatArray [lit 0.89]) ''kg''
       \<lparr>globals = cell_1 [''res1'' \<mapsto> lit 1], font_family = ''Helvetica Neue'',
        saved = [], shown = []\<rparr>)) ''CH4_KG_PER_KCF'' \<and>
   font_family \<lparr>globals = cell_1 Map.empty, font_family = ''Helvetica Neue'', saved = [], shown = []\<rparr> =
   font_family (snd (graph (FloatArray [lit 78, lit 250]) (FloatArray [lit 0.89]) ''kg''
       \<lparr>globals = cell_1 [''res1'' \<mapsto> lit 1], font_family = ''Helvetica Neue'',
        saved = [], shown = []\<rparr>)) \<and>
   fst (graph (FloatArray [lit 78, lit 250]) (FloatArray [lit 0.89]) ''kcf''
         \<lparr>globals = cell_1 Map.empty, font_family = ''Helvetica Neue'', saved = [], shown = []\<rparr>) =
   fst (graph (FloatArray [lit 78, lit 250]) (FloatArray [lit 0.89]) ''kcf''
         (snd (graph (FloatArray [lit 78, lit 250]) (FloatArray [lit 0.89]) ''kg''
           \<lparr>globals = cell_1 [''res1'' \<mapsto> lit 1], font_family = ''Helvetica Neue'',
            saved = [], shown = []\<rparr>))) \<and>
   fst (graph (FloatArray [lit 78, lit 250]) (FloatArray [lit 0.89]) ''kcf''
         \<lparr>globals = cell_1 Map.empty, font_family = ''Helvetica Neue'', saved = [], shown = []\<rparr>) =
   Inr ()"
proof -
  let ?w1 = "\<lparr>globals = cell_1 Map.empty, font_family = ''Helvetica Neue'',
              saved = [], shown = []\<rparr>"
  let ?w0 = "\<lparr>globals = cell_1 [''res1'' \<mapsto> lit 1], font_family = ''Helvetica Neue'',
              saved = [], shown = []\<rparr>"
  let ?x = "FloatArray [lit 78, lit 250]"
  let ?y = "FloatArray [lit 0.89]"
  let ?w2 = "snd (graph ?x ?y ''kg'' ?w0)"
  have g: "globals ?w1 ''CH4_KG_PER_KCF'' = globals ?w2 ''CH4_KG_PER_KCF''"
    using graph_keeps [of ?x ?y "''kg''" ?w0] by (simp add: cell_1_def)
  have f: "font_family ?w1 = font_family ?w2"
    using graph_keeps [of ?x ?y "''kg''" ?w0] by simp
  have r: "fst (graph ?x ?y ''kcf'' ?w1) = Inr ()"
    by (rule graph_returns [where k = "lit 19.17"]) (simp_all add: cell_1_def)
  show ?thesis
    using g f r no_hidden_state [OF g f, of ?x ?y "''kcf''"] by simp
qed

section \<open>The greenhouse chain\<close>

text \<open>
  C3, as the specification states it, fails: the heating energy for one degree hour is
  not within 0.5 of 2.98 kWh, and its cost is not within 0.02 of 0.119.
\<close>

theorem heating_not_298:
  "\<not> approx_res (chain_value heatingKwhPerDegreeHour) 2.98 0.5 \<and>
   \<not> approx_res (chain_value heatingCostPerDegreeHour) 0.119 0.02"
  by (simp add: chain_value_def greenhouse_chain_value approx_res_def sval_def)

text \<open>
  C3, amended: with the constants of the cell, the heating energy for one degree hour of
  the 10,000 sqft greenhouse is 2.29 kWh to two decimals, and its cost 0.092 to three.
\<close>

theorem heating_229:
  "approx_res (chain_value heatingKwhPerDegreeHour) 2.29 0.005 \<and>
   approx_res (chain_value heatingCostPerDegreeHour) 0.092 0.0005"
  by (simp add: chain_value_def greenhouse_chain_value approx_res_def sval_def)

text \<open>
  C4. With the constants of the cell, the cooling energy for one degree hour of the
  10,000 sqft greenhouse is 1.32 kWh to two decimals, and its cost 0.158 to three.
\<close>

theorem cooling_132:
  "approx_res (chain_value coolingKwhPerDegreeHour) 1.32 0.005 \<and>
   approx_res (chain_value coolingCostPerDegreeHour) 0.158 0.0005"
  by (simp add: chain_value_def greenhouse_chain_value approx_res_def sval_def)

text \<open>
  C10. Every divisor of the chain (8, the two efficiencies, the greenhouse factor, the
  floor area) is a nonzero constant, so the chain raises no ZeroDivisionError: it returns,
  and every variable of it, among them the six derived numbers (energy for each square
  foot and square metre, cost for each degree hour, for heating and for cooling), is
  greater than zero.
\<close>

theorem greenhouse_chain_total:
  "(\<not> is_zero (lit 8) \<and> \<not> is_zero HEATING_SYSTEM_COP \<and> \<not> is_zero GREENHOUSE_EFFECT_FACTOR \<and>
    \<not> is_zero COOLING_SYSTEM_COP \<and> \<not> is_zero TYPICAL_SQFT) \<and>
   (case greenhouse_chain of
      Inl e \<Rightarrow> False
    | Inr g \<Rightarrow>
        flt (Fin False 0) (baseEnergyPerDegreeHour g) \<and> flt (Fin False 0) (volumeEffect g) \<and>
        flt (Fin False 0) (adjustedEnergy g) \<and>
        flt (Fin False 0) (heatingBtuPerDegreeHour g) \<and>
        flt (Fin False 0) (coolingBtuPerDegreeHour g) \<and>
        flt (Fin False 0) (heatingKwhPerDegreeHour g) \<and>
        flt (Fin False 0) (coolingKwhPerDegreeHour g) \<and>
        flt (Fin False 0) (heatingKwhPerSqft g) \<and> flt (Fin False 0) (coolingKwhPerSqft g) \<and>
        flt (Fin False 0) (heatingKwhPerSqm g) \<and> flt (Fin False 0) (coolingKwhPerSqm g) \<and>
        flt (Fin False 0) (heatingCostPerDegreeHour g) \<and>
        flt (Fin False 0) (coolingCostPerDegreeHour g))"
  using divisors_nonzero by (simp add: greenhouse_chain_value sval_def)

end
